theory Spec2Isabelle
  imports Complex_Main "HOL-Library.AList" "HOL-Library.Sublist"
begin


section \<open>JSON documents as the program sees them\<close>

text \<open>
  \<^verbatim>\<open>type PackageJson = Record<string, any>\<close>: the value that \<^verbatim>\<open>fs.readJSON\<close> returns is
  whatever \<^verbatim>\<open>JSON.parse\<close> produced. An object is the list of its own properties in
  enumeration order. A number is a finite one (negative zero taken as zero), or an
  infinity: \<^verbatim>\<open>JSON.parse\<close> gives \<^verbatim>\<open>Infinity\<close> for a numeral beyond the range of a double,
  such as \<^verbatim>\<open>1e400\<close>. A string is the list of the bytes of its UTF-8 encoding, in a
  document, in a log message and in a file alike; a surrogate that stands alone is
  the three bytes that the same scheme gives its code unit.
\<close>

datatype number = Finite rat | PosInfinity | NegInfinity

datatype json =
    JNull
  | JBool bool
  | JNum number
  | JStr string
  | JArr "json list"
  | JObj "(string \<times> json) list"

text \<open>JavaScript truthiness of a defined value (\<^verbatim>\<open>undefined\<close> is \<open>None\<close> below).\<close>

fun truthy :: "json \<Rightarrow> bool" where
  "truthy JNull = False"
| "truthy (JBool b) = b"
| "truthy (JNum n) = (n \<noteq> Finite 0)"
| "truthy (JStr s) = (s \<noteq> [])"
| "truthy (JArr xs) = True"
| "truthy (JObj kvs) = True"

text \<open>\<^verbatim>\<open>a || d\<close> and \<^verbatim>\<open>a ?? d\<close>, where \<open>a\<close> may be \<^verbatim>\<open>undefined\<close>.\<close>

definition orElse :: "json option \<Rightarrow> json \<Rightarrow> json" where
  "orElse a d = (case a of None \<Rightarrow> d | Some v \<Rightarrow> if truthy v then v else d)"

definition nullish :: "json option \<Rightarrow> json \<Rightarrow> json" where
  "nullish a d = (case a of None \<Rightarrow> d | Some JNull \<Rightarrow> d | Some v \<Rightarrow> v)"

text \<open>
  \<^verbatim>\<open>o.k\<close> on a value that is neither \<^verbatim>\<open>null\<close> nor \<^verbatim>\<open>undefined\<close>, for the property
  names this module reads (none of them is an index, \<^verbatim>\<open>length\<close> or a member of a
  prototype): only an object can have the property. \<^verbatim>\<open>o?.k\<close> adds the two nullish
  cases.
\<close>

fun getProp :: "json \<Rightarrow> string \<Rightarrow> json option" where
  "getProp (JObj kvs) k = map_of kvs k"
| "getProp v k = None"

fun optProp :: "json option \<Rightarrow> string \<Rightarrow> json option" where
  "optProp None k = None"
| "optProp (Some v) k = getProp v k"

text \<open>Decimal numerals, for the index keys that spreading a string or an array makes.\<close>

fun show_nat :: "nat \<Rightarrow> string" where
  "show_nat n =
     (if n < 10 then [''0123456789'' ! n]
      else show_nat (n div 10) @ [''0123456789'' ! (n mod 10)])"

text \<open>
  The UTF-16 code units of a string, each as the string that holds it alone. A
  JavaScript string is indexed by code unit: a character of one, two or three bytes is
  one code unit, a character of four bytes is a pair of surrogates.
\<close>

definition unitBytes :: "nat \<Rightarrow> string" where
  "unitBytes u =
     [char_of (0xE0 + u div 4096), char_of (0x80 + u div 64 mod 64), char_of (0x80 + u mod 64)]"

definition surrogates :: "char \<Rightarrow> char \<Rightarrow> char \<Rightarrow> char \<Rightarrow> string list" where
  "surrogates a b c d =
     (let cp = (of_char a mod 8) * 262144 + (of_char b mod 64) * 4096
               + (of_char c mod 64) * 64 + of_char d mod 64;
          v = cp - 0x10000
      in [unitBytes (0xD800 + v div 1024), unitBytes (0xDC00 + v mod 1024)])"

fun codeUnits :: "string \<Rightarrow> string list" where
  "codeUnits [] = []"
| "codeUnits (a # bs) =
     (if (0xF0::nat) \<le> of_char a \<and> 3 \<le> length bs then
        surrogates a (bs ! 0) (bs ! 1) (bs ! 2) @ codeUnits (drop 3 bs)
      else if (0xE0::nat) \<le> of_char a \<and> 2 \<le> length bs then
        (a # take 2 bs) # codeUnits (drop 2 bs)
      else if (0xC0::nat) \<le> of_char a \<and> 1 \<le> length bs then
        (a # take 1 bs) # codeUnits (drop 1 bs)
      else [a] # codeUnits bs)"

text \<open>
  \<^verbatim>\<open>...x\<close> inside an object literal: the own enumerable properties of \<open>x\<close>, in order.
  A string spreads into its code units and an array into its elements, both under
  their indices; \<^verbatim>\<open>undefined\<close>, \<^verbatim>\<open>null\<close>, booleans and numbers spread into nothing.
\<close>

fun spread :: "json option \<Rightarrow> (string \<times> json) list" where
  "spread (Some (JObj kvs)) = kvs"
| "spread (Some (JArr xs)) = zip (map show_nat [0..<length xs]) xs"
| "spread (Some (JStr s)) =
     zip (map show_nat [0..<length (codeUnits s)]) (map JStr (codeUnits s))"
| "spread v = []"

text \<open>
  An object literal \<^verbatim>\<open>{ ...base, k1: v1, k2: v2 }\<close>: each named property is assigned in
  turn; an assignment to a key that is already there keeps the key's place, a new key
  goes last.
\<close>

definition objectLit ::
  "(string \<times> json) list \<Rightarrow> (string \<times> json) list \<Rightarrow> (string \<times> json) list" where
  "objectLit base props = fold (\<lambda>(k, v). AList.update k v) props base"

section \<open>The manifest merge\<close>

datatype error = TypeError | SyntaxError | ENOENT | ENOTDIR | EISDIR | EEXIST

text \<open>
  The three nested object literals of \<^verbatim>\<open>starterPkg\<close> (its properties \<^verbatim>\<open>scripts\<close>,
  \<^verbatim>\<open>dependencies\<close> and \<^verbatim>\<open>devDependencies\<close>), as functions of \<^verbatim>\<open>pkg\<close>.
\<close>

definition scriptsLit :: "json \<Rightarrow> (string \<times> json) list" where
  \<open>scriptsLit pkg =
    objectLit (spread (getProp pkg ''scripts''))
      [(''dev'', orElse (optProp (getProp pkg ''scripts'') ''dev'')
          (JStr ''echo "Plug your preferred framework dev server here (e.g. vite dev)"'')),
       (''typecheck'', JStr ''tsc --noEmit''),
       (''build:css'',
          JStr ''tailwindcss -i ./src/styles/index.css -o ./dist/styles.css --minify''),
       (''build'', JStr ''npm run typecheck && npm run build:css''),
       (''lint'', JStr ''eslint "src/**/*.{ts,tsx}" --max-warnings=0''),
       (''format'', JStr ''prettier --write "src/**/*.{ts,tsx,css,md}"'')]\<close>

definition dependenciesLit :: "json \<Rightarrow> (string \<times> json) list" where
  "dependenciesLit pkg =
    objectLit (spread (Some (orElse (getProp pkg ''dependencies'') (JObj []))))
      [(''react'', orElse (optProp (getProp pkg ''dependencies'') ''react'')
          (JStr ''^18.3.1'')),
       (''react-dom'', orElse (optProp (getProp pkg ''dependencies'') ''react-dom'')
          (JStr ''^18.3.1'')),
       (''@mindfiredigital/ignix-ui'',
          orElse (optProp (getProp pkg ''dependencies'') ''@mindfiredigital/ignix-ui'')
          (JStr ''^1.0.5'')),
       (''clsx'', orElse (optProp (getProp pkg ''dependencies'') ''clsx'')
          (JStr ''^2.1.1'')),
       (''tailwind-merge'',
          orElse (optProp (getProp pkg ''dependencies'') ''tailwind-merge'')
          (JStr ''^3.0.2''))]"

definition devDependenciesLit :: "json \<Rightarrow> (string \<times> json) list" where
  "devDependenciesLit pkg =
    objectLit (spread (Some (orElse (getProp pkg ''devDependencies'') (JObj []))))
      [(''typescript'', JStr ''^5.6.2''),
       (''@types/react'', JStr ''^18.3.5''),
       (''@types/react-dom'', JStr ''^18.3.0''),
       (''tailwindcss'', JStr ''^3.4.14''),
       (''postcss'', JStr ''^8.4.41''),
       (''autoprefixer'', JStr ''^10.4.20''),
       (''eslint'', JStr ''^9.11.1''),
       (''@typescript-eslint/parser'', JStr ''^8.7.0''),
       (''@typescript-eslint/eslint-plugin'', JStr ''^8.7.0''),
       (''prettier'', JStr ''^3.3.3''),
       (''prettier-plugin-tailwindcss'', JStr ''^0.6.6'')]"

text \<open>
  The object literal \<^verbatim>\<open>starterPkg\<close> of \<^verbatim>\<open>createUniversalPackageJson\<close>, as a function
  of \<^verbatim>\<open>pkg\<close>. Reading \<^verbatim>\<open>pkg.name\<close> when the file held the JSON text \<^verbatim>\<open>null\<close> throws.
\<close>

definition starterPkg :: "json \<Rightarrow> error + json" where
  "starterPkg pkg =
    (if pkg = JNull then Inl TypeError
     else Inr (JObj
      [(''name'', orElse (getProp pkg ''name'') (JStr ''ignix-universal-app'')),
       (''version'', orElse (getProp pkg ''version'') (JStr ''0.1.0'')),
       (''private'', nullish (getProp pkg ''private'') (JBool True)),
       (''type'', orElse (getProp pkg ''type'') (JStr ''module'')),
       (''scripts'', JObj (scriptsLit pkg)),
       (''dependencies'', JObj (dependenciesLit pkg)),
       (''devDependencies'', JObj (devDependenciesLit pkg))]))"

text \<open>\<^verbatim>\<open>d[f]?.[k]\<close>: an entry of a nested mapping of a document.\<close>

definition nested :: "json \<Rightarrow> string \<Rightarrow> string \<Rightarrow> json option" where
  "nested d f k = optProp (getProp d f) k"

text \<open>
  The fixed default document: the four scalar defaults and the default entries of the
  three nested mappings, as the literal lists them.
\<close>

definition default_manifest :: json where
  \<open>default_manifest = JObj
    [(''name'', JStr ''ignix-universal-app''),
     (''version'', JStr ''0.1.0''),
     (''private'', JBool True),
     (''type'', JStr ''module''),
     (''scripts'', JObj
       [(''dev'', JStr ''echo "Plug your preferred framework dev server here (e.g. vite dev)"''),
        (''typecheck'', JStr ''tsc --noEmit''),
        (''build:css'',
           JStr ''tailwindcss -i ./src/styles/index.css -o ./dist/styles.css --minify''),
        (''build'', JStr ''npm run typecheck && npm run build:css''),
        (''lint'', JStr ''eslint "src/**/*.{ts,tsx}" --max-warnings=0''),
        (''format'', JStr ''prettier --write "src/**/*.{ts,tsx,css,md}"'')]),
     (''dependencies'', JObj
       [(''react'', JStr ''^18.3.1''),
        (''react-dom'', JStr ''^18.3.1''),
        (''@mindfiredigital/ignix-ui'', JStr ''^1.0.5''),
        (''clsx'', JStr ''^2.1.1''),
        (''tailwind-merge'', JStr ''^3.0.2'')]),
     (''devDependencies'', JObj
       [(''typescript'', JStr ''^5.6.2''),
        (''@types/react'', JStr ''^18.3.5''),
        (''@types/react-dom'', JStr ''^18.3.0''),
        (''tailwindcss'', JStr ''^3.4.14''),
        (''postcss'', JStr ''^8.4.41''),
        (''autoprefixer'', JStr ''^10.4.20''),
        (''eslint'', JStr ''^9.11.1''),
        (''@typescript-eslint/parser'', JStr ''^8.7.0''),
        (''@typescript-eslint/eslint-plugin'', JStr ''^8.7.0''),
        (''prettier'', JStr ''^3.3.3''),
        (''prettier-plugin-tailwindcss'', JStr ''^0.6.6'')])]\<close>

section \<open>The file system and the logger\<close>

text \<open>
  A path is the list of its components, so \<^verbatim>\<open>path.join(root, 'src', 'components')\<close> is
  \<open>rootDir @ [''src'', ''components'']\<close>. The world holds what exists at each path and what
  the logger was given. The JSON text functions behind \<^verbatim>\<open>fs.readJSON\<close> and
  \<^verbatim>\<open>fs.writeJSON\<close> belong to a library: \<open>parse\<close> is \<^verbatim>\<open>JSON.parse\<close> (\<open>None\<close> when it
  throws) and \<open>stringify\<close> is the serialisation with \<^verbatim>\<open>{ spaces: 2 }\<close>; both are
  parameters of every operation that uses them.
\<close>

type_synonym path = "string list"

datatype node = Dir | File string

datatype log_entry = Info string | Warn string

record world =
  files :: "path \<Rightarrow> node option"
  logs :: "log_entry list"

text \<open>An operation returns the error it throws, if any, and the world it leaves.\<close>

type_synonym action = "world \<Rightarrow> error option \<times> world"

definition logger_info :: "string \<Rightarrow> world \<Rightarrow> world" where
  "logger_info msg w = w\<lparr>logs := logs w @ [Info msg]\<rparr>"

definition logger_warn :: "string \<Rightarrow> world \<Rightarrow> world" where
  "logger_warn msg w = w\<lparr>logs := logs w @ [Warn msg]\<rparr>"

definition pathExists :: "world \<Rightarrow> path \<Rightarrow> bool" where
  "pathExists w p = (files w p \<noteq> None)"

definition readJSON :: "(string \<Rightarrow> json option) \<Rightarrow> world \<Rightarrow> path \<Rightarrow> error + json" where
  "readJSON parse w p =
     (case files w p of
        None \<Rightarrow> Inl ENOENT
      | Some Dir \<Rightarrow> Inl EISDIR
      | Some (File s) \<Rightarrow> (case parse s of None \<Rightarrow> Inl SyntaxError | Some j \<Rightarrow> Inr j))"

text \<open>
  \<^verbatim>\<open>fs.writeFile\<close> replaces a file, or creates it in a directory that exists; it makes
  no directory.
\<close>

definition writeFile :: "path \<Rightarrow> string \<Rightarrow> action" where
  "writeFile p s w =
     (case files w p of
        Some Dir \<Rightarrow> (Some EISDIR, w)
      | Some (File old) \<Rightarrow> (None, w\<lparr>files := (files w)(p \<mapsto> File s)\<rparr>)
      | None \<Rightarrow>
          (case files w (butlast p) of
             Some Dir \<Rightarrow> (None, w\<lparr>files := (files w)(p \<mapsto> File s)\<rparr>)
           | Some (File x) \<Rightarrow> (Some ENOTDIR, w)
           | None \<Rightarrow> (Some ENOENT, w)))"

definition writeJSON :: "(json \<Rightarrow> string) \<Rightarrow> path \<Rightarrow> json \<Rightarrow> action" where
  "writeJSON stringify p doc = writeFile p (stringify doc)"

text \<open>
  \<^verbatim>\<open>fs.ensureDir\<close> is a recursive \<^verbatim>\<open>mkdir\<close>: it walks the prefixes of the path from
  the top, makes each directory that is missing and fails at a file.
\<close>

fun mkdirs :: "path list \<Rightarrow> (path \<Rightarrow> node option) \<Rightarrow> error + (path \<Rightarrow> node option)" where
  "mkdirs [] fs = Inr fs"
| "mkdirs (q # qs) fs =
     (case fs q of
        Some (File x) \<Rightarrow> Inl (if qs = [] then EEXIST else ENOTDIR)
      | Some Dir \<Rightarrow> mkdirs qs fs
      | None \<Rightarrow> mkdirs qs (fs(q \<mapsto> Dir)))"

definition ensureDir :: "path \<Rightarrow> action" where
  "ensureDir p w =
     (case mkdirs (prefixes p) (files w) of
        Inl e \<Rightarrow> (Some e, w)
      | Inr fs \<Rightarrow> (None, w\<lparr>files := fs\<rparr>))"

text \<open>A run of awaited calls: the first error ends it, and what was written stays.\<close>

fun sequence :: "action list \<Rightarrow> action" where
  "sequence [] w = (None, w)"
| "sequence (a # as) w =
     (case a w of
        (None, w') \<Rightarrow> sequence as w'
      | (Some e, w') \<Rightarrow> (Some e, w'))"

section \<open>The operations\<close>

subsection \<open>package.json\<close>

text \<open>
  Lines 9 to 18 of \<^verbatim>\<open>createUniversalPackageJson\<close>: the value of \<^verbatim>\<open>pkg\<close> and the log
  entry, from what is at \<^verbatim>\<open>pkgPath\<close>. The \<^verbatim>\<open>catch\<close> takes every failure of the read.
\<close>

definition readExisting :: "(string \<Rightarrow> json option) \<Rightarrow> path \<Rightarrow> world \<Rightarrow> json \<times> world" where
  "readExisting parse pkgPath w =
     (if pathExists w pkgPath then
        (case readJSON parse w pkgPath of
           Inr j \<Rightarrow>
             (j, logger_info
                (''Existing package.json found '' @ [CHR 0xE2, CHR 0x80, CHR 0x93]
                  @ '' merging starter scripts and dependencies.'') w)
         | Inl e \<Rightarrow>
             (JObj [], logger_warn ''Unable to parse package.json, generating a fresh one.'' w))
      else (JObj [], w))"

definition createUniversalPackageJson ::
  "(string \<Rightarrow> json option) \<Rightarrow> (json \<Rightarrow> string) \<Rightarrow> path \<Rightarrow> action" where
  "createUniversalPackageJson parse stringify rootDir w =
     (let pkgPath = rootDir @ [''package.json''];
          (pkg, w1) = readExisting parse pkgPath w
      in case starterPkg pkg of
           Inl e \<Rightarrow> (Some e, w1)
         | Inr doc \<Rightarrow> writeJSON stringify pkgPath doc w1)"

subsection \<open>The fixed artifacts\<close>

text \<open>A template literal, line by line; every line of it ends in a newline.\<close>

definition joinLines :: "string list \<Rightarrow> string" where
  "joinLines ls = concat (map (\<lambda>l. l @ ''\<newline>'') ls)"

definition tsconfig :: json where
  "tsconfig = JObj
    [(''compilerOptions'', JObj
       [(''target'', JStr ''ES2020''),
        (''lib'', JArr [JStr ''DOM'', JStr ''DOM.Iterable'', JStr ''ES2020'']),
        (''module'', JStr ''ESNext''),
        (''moduleResolution'', JStr ''Bundler''),
        (''strict'', JBool True),
        (''noEmit'', JBool True),
        (''skipLibCheck'', JBool False),
        (''forceConsistentCasingInFileNames'', JBool True),
        (''esModuleInterop'', JBool True),
        (''resolveJsonModule'', JBool True),
        (''jsx'', JStr ''react-jsx''),
        (''baseUrl'', JStr ''.''),
        (''paths'', JObj [(''@/*'', JArr [JStr ''src/*''])])]),
     (''include'', JArr [JStr ''src'']),
     (''exclude'', JArr [JStr ''node_modules'', JStr ''dist''])]"

definition createUniversalTsconfig :: "(json \<Rightarrow> string) \<Rightarrow> path \<Rightarrow> action" where
  "createUniversalTsconfig stringify rootDir =
     writeJSON stringify (rootDir @ [''tsconfig.json'']) tsconfig"

definition config :: string where
  \<open>config = joinLines
    [
     ''/** @type {import(\'tailwindcss\').Config} */'',
     ''module.exports = {'',
     ''  darkMode: [\'class\', \'[data-theme="dark"]\'],'',
     ''  content: ['',
     ''    \'./src/components/**/*.{ts,tsx,js,jsx}\','',
     ''    \'./src/pages/**/*.{ts,tsx,js,jsx}\','',
     ''    \'./node_modules/@mindfiredigital/ignix-ui/**/*.{js,ts,jsx,tsx}\','',
     ''  ],'',
     ''  theme: {'',
     ''    extend: {'',
     ''      colors: {'',
     ''        background: \'var(--background)\','',
     ''        foreground: \'var(--foreground)\','',
     ''        primary: {'',
     ''          DEFAULT: \'var(--primary)\','',
     ''          foreground: \'var(--primary-foreground)\','',
     ''        },'',
     ''        secondary: {'',
     ''          DEFAULT: \'var(--secondary)\','',
     ''          foreground: \'var(--secondary-foreground)\','',
     ''        },'',
     ''        muted: {'',
     ''          DEFAULT: \'var(--muted)\','',
     ''          foreground: \'var(--muted-foreground)\','',
     ''        },'',
     ''        accent: {'',
     ''          DEFAULT: \'var(--accent)\','',
     ''          foreground: \'var(--accent-foreground)\','',
     ''        },'',
     ''        border: \'var(--border)\','',
     ''        input: \'var(--input)\','',
     ''        ring: \'var(--ring)\','',
     ''      },'',
     ''    },'',
     ''  },'',
     ''  plugins: [],'',
     ''};''
    ]\<close>

definition createUniversalTailwindConfig :: "path \<Rightarrow> action" where
  "createUniversalTailwindConfig rootDir = writeFile (rootDir @ [''tailwind.config.js'']) config"

definition postcssContents :: string where
  \<open>postcssContents = joinLines
    [
     ''module.exports = {'',
     ''  plugins: {'',
     ''    tailwindcss: {},'',
     ''    autoprefixer: {},'',
     ''  },'',
     ''};''
    ]\<close>

definition createUniversalPostCSSConfig :: "path \<Rightarrow> action" where
  "createUniversalPostCSSConfig rootDir =
     writeFile (rootDir @ [''postcss.config.js'']) postcssContents"

definition eslintConfig :: json where
  "eslintConfig = JObj
    [(''env'', JObj [(''browser'', JBool True), (''es2022'', JBool True)]),
     (''parser'', JStr ''@typescript-eslint/parser''),
     (''parserOptions'', JObj
       [(''ecmaVersion'', JStr ''latest''),
        (''sourceType'', JStr ''module''),
        (''ecmaFeatures'', JObj [(''jsx'', JBool True)])]),
     (''plugins'', JArr [JStr ''@typescript-eslint'']),
     (''extends'',
        JArr [JStr ''eslint:recommended'', JStr ''plugin:@typescript-eslint/recommended'']),
     (''ignorePatterns'', JArr [JStr ''dist'', JStr ''node_modules'']),
     (''rules'', JObj
       [(''@typescript-eslint/no-unused-vars'',
          JArr [JStr ''warn'',
                JObj [(''argsIgnorePattern'', JStr ''^_''),
                      (''varsIgnorePattern'', JStr ''^_'')]])])]"

definition createUniversalEslintConfig :: "(json \<Rightarrow> string) \<Rightarrow> path \<Rightarrow> action" where
  "createUniversalEslintConfig stringify rootDir =
     writeJSON stringify (rootDir @ [''.eslintrc.json'']) eslintConfig"

definition ignixConfig :: string where
  \<open>ignixConfig = joinLines
    [
     ''/* eslint-env node */'',
     ''/** @type {import(\'@mindfiredigital/ignix-cli\').IgnixConfig} */'',
     ''module.exports = {'',
     ''  registryUrl:'',
     ''    \'https://raw.githubusercontent.com/mindfiredigital/ignix-ui/main/packages/registry/registry.json\','',
     ''  themeUrl:'',
     ''    \'https://raw.githubusercontent.com/mindfiredigital/ignix-ui/main/packages/registry/themes.json\','',
     ''  componentsDir: \'src/components\','',
     ''  themesDir: \'src/styles/themes\','',
     ''};''
    ]\<close>

definition createUniversalIgnixConfig :: "path \<Rightarrow> action" where
  "createUniversalIgnixConfig rootDir = writeFile (rootDir @ [''ignix.config.js'']) ignixConfig"

definition uiShell :: string where
  \<open>uiShell = joinLines
    [
     ''import { Button, Card } from \'@mindfiredigital/ignix-ui\';'',
     '''',
     ''export function UiShell() {'',
     ''  return ('',
     ''    <section className="space-y-6 rounded-2xl border border-border bg-background/80 p-8 shadow-sm backdrop-blur">'',
     ''      <header>'',
     ''        <p className="text-sm uppercase tracking-widest text-muted-foreground">Ignix UI</p>'',
     ''        <h1 className="text-3xl font-semibold">Framework-agnostic starter</h1>'',
     ''        <p className="mt-2 text-base text-muted-foreground">'',
     ''          Compose Tailwind primitives, strict TypeScript types, and Ignix UI components in any React'',
     ''          runtime: Next.js, Remix, Vite, Expo Router for web, or custom design systems.'',
     ''        </p>'',
     ''      </header>'',
     ''      <Card className="space-y-4 p-6">'',
     ''        <div>'',
     ''          <h2 className="text-lg font-medium">Drop-in ready</h2>'',
     ''          <p className="text-sm text-muted-foreground">'',
     ''            Add your preferred router and renderer, wire the exported pages, and keep this starter as'',
     ''            a shared UI workspace.'',
     ''          </p>'',
     ''        </div>'',
     ''        <Button size="lg" className="w-full sm:w-auto">'',
     ''          Start shipping'',
     ''        </Button>'',
     ''      </Card>'',
     ''    </section>'',
     ''  );'',
     ''}''
    ]\<close>

definition pageContent :: string where
  \<open>pageContent = joinLines
    [
     ''import { UiShell } from \'../components/UiShell\';'',
     '''',
     ''export function HomePage() {'',
     ''  return ('',
     ''    <main className="min-h-screen bg-gradient-to-b from-background via-background to-muted px-4 py-16">'',
     ''      <div className="mx-auto flex w-full max-w-4xl flex-col gap-4 text-foreground">'',
     ''        <UiShell />'',
     ''        <section className="rounded-2xl border border-dashed border-border p-6 text-sm text-muted-foreground">'',
     ''          <p className="font-medium text-foreground">Plug me anywhere</p>'',
     ''          <ul className="list-inside list-disc space-y-2 pt-2">'',
     ''            <li>Next.js / Remix / Expo Router: import the components into your route files</li>'',
     ''            <li>Vite / Rspack / Webpack: mount `HomePage` in your entry point</li>'',
     ''            <li>Design systems: re-export `UiShell` from a shared package</li>'',
     ''          </ul>'',
     ''        </section>'',
     ''      </div>'',
     ''    </main>'',
     ''  );'',
     ''}'',
     '''',
     ''export default HomePage;''
    ]\<close>

definition styles :: string where
  \<open>styles = joinLines
    [
     ''@tailwind base;'',
     ''@tailwind components;'',
     ''@tailwind utilities;'',
     '''',
     '':root {'',
     ''  --background: 0 0% 100%;'',
     ''  --foreground: 224 71% 4%;'',
     ''  --primary: 222.2 47.4% 11.2%;'',
     ''  --primary-foreground: 210 40% 98%;'',
     ''  --secondary: 210 40% 96.1%;'',
     ''  --secondary-foreground: 222.2 47.4% 11.2%;'',
     ''  --muted: 210 40% 96.1%;'',
     ''  --muted-foreground: 215.4 16.3% 46.9%;'',
     ''  --accent: 210 40% 96.1%;'',
     ''  --accent-foreground: 222.2 47.4% 11.2%;'',
     ''  --border: 214.3 31.8% 91.4%;'',
     ''  --input: 214.3 31.8% 91.4%;'',
     ''  --ring: 222.2 84% 4.9%;'',
     ''}'',
     '''',
     ''.dark {'',
     ''  --background: 222.2 84% 4.9%;'',
     ''  --foreground: 210 40% 98%;'',
     ''  --primary: 210 40% 98%;'',
     ''  --primary-foreground: 222.2 47.4% 11.2%;'',
     ''  --secondary: 217.2 32.6% 17.5%;'',
     ''  --secondary-foreground: 210 40% 98%;'',
     ''  --muted: 217.2 32.6% 17.5%;'',
     ''  --muted-foreground: 215 20.2% 65.1%;'',
     ''  --accent: 217.2 32.6% 17.5%;'',
     ''  --accent-foreground: 210 40% 98%;'',
     ''  --border: 217.2 32.6% 17.5%;'',
     ''  --input: 217.2 32.6% 17.5%;'',
     ''  --ring: 212.7 26.8% 83.9%;'',
     ''}'',
     '''',
     ''body {'',
     ''  @apply bg-background text-foreground antialiased;'',
     ''}''
    ]\<close>

definition createUniversalSrcStructure :: "path \<Rightarrow> action" where
  "createUniversalSrcStructure rootDir =
     (let componentsDir = rootDir @ [''src'', ''components''];
          pagesDir = rootDir @ [''src'', ''pages''];
          stylesDir = rootDir @ [''src'', ''styles'']
      in sequence
           [ensureDir componentsDir,
            ensureDir pagesDir,
            ensureDir stylesDir,
            ensureDir (rootDir @ [''dist'']),
            writeFile (componentsDir @ [''UiShell.tsx'']) uiShell,
            writeFile (pagesDir @ [''index.tsx'']) pageContent,
            writeFile (stylesDir @ [''index.css'']) styles])"

definition gitignoreContents :: string where
  \<open>gitignoreContents = joinLines
    [
     ''node_modules'',
     ''dist'',
     ''.turbo'',
     ''.next'',
     ''.vercel'',
     ''.cache'',
     ''.env'',
     ''.env.*'',
     ''*.log'',
     ''*.lock'',
     ''.DS_Store''
    ]\<close>

definition createUniversalGitignore :: "path \<Rightarrow> action" where
  "createUniversalGitignore rootDir = writeFile (rootDir @ [''.gitignore'']) gitignoreContents"

definition readme :: string where
  \<open>readme = joinLines
    [
     ''# Ignix UI Universal Starter'',
     '''',
     ''A framework-agnostic React + TypeScript + Tailwind starter wired for Ignix UI. Drop these folders into any framework (Next.js, Remix, Gatsby, Vite, Expo Router for web) or keep them in a standalone UI workspace.'',
     '''',
     ''## What\'s inside'',
     '''',
     ''- '' @ [CHR 0xE2, CHR 0x9C, CHR 0x85] @ '' Strict TypeScript configuration with sensible aliases'',
     ''- '' @ [CHR 0xE2, CHR 0x9C, CHR 0x85] @ '' Tailwind CSS v3+ with design tokens that mirror Ignix UI defaults'',
     ''- '' @ [CHR 0xE2, CHR 0x9C, CHR 0x85] @ '' Ready-to-import Ignix UI component examples (`UiShell`, `HomePage`)'',
     ''- '' @ [CHR 0xE2, CHR 0x9C, CHR 0x85] @ '' Opinionated folder structure:'',
     ''  - `src/components` for reusable UI'',
     ''  - `src/pages` for route-level views'',
     ''  - `src/styles` for global and theme styles'',
     ''- '' @ [CHR 0xE2, CHR 0x9C, CHR 0x85] @ '' Build hints for CSS + type-check pipelines'',
     '''',
     ''## Scripts'',
     '''',
     ''- `npm run dev` '' @ [CHR 0xE2, CHR 0x80, CHR 0x93] @ '' attach your framework runner (defaults to a placeholder echo)'',
     ''- `npm run typecheck` '' @ [CHR 0xE2, CHR 0x80, CHR 0x93] @ '' zero-emission strict TypeScript check'',
     ''- `npm run build:css` '' @ [CHR 0xE2, CHR 0x80, CHR 0x93] @ '' compiles Tailwind to `dist/styles.css`'',
     ''- `npm run build` '' @ [CHR 0xE2, CHR 0x80, CHR 0x93] @ '' runs both to keep CI happy'',
     ''- `npm run lint` / `npm run format` '' @ [CHR 0xE2, CHR 0x80, CHR 0x93] @ '' optional quality gates'',
     '''',
     ''## Hook it into your framework'',
     '''',
     ''1. Copy `src/components`, `src/pages`, and `src/styles` into your app (or keep this repo dedicated to UI).'',
     ''2. Ensure your bundler resolves `@/*` to `src/*` (Next.js, Remix, Vite already do).'',
     ''3. Import `HomePage` from `src/pages/index.tsx` wherever your framework expects a view component.'',
     ''4. Keep Tailwind running:'',
     '''',
     ''   ```bash'',
     ''   npm install'',
     ''   npm run build:css # or tailwindcss -w for watch mode'',
     ''   ```'',
     '''',
     ''## Ignix CLI integration'',
     '''',
     ''- Add more components: `npx ignix add <component-name>`'',
     ''- Browse starters: `npx ignix starters`'',
     ''- Manage themes: `npx ignix themes list`'',
     '''',
     ''## Next steps'',
     '''',
     ''1. Initialize git: `git init && git add . && git commit -m "init ignix universal starter"`'',
     ''2. Wire the exported components into your chosen framework.'',
     ''3. Deploy with the tooling you already use (Vercel, Netlify, Render, Docker, etc.).'',
     '''',
     ''Happy shipping! '' @ [CHR 0xF0, CHR 0x9F, CHR 0x9A, CHR 0x80]
    ]\<close>

definition createUniversalReadme :: "path \<Rightarrow> action" where
  "createUniversalReadme rootDir = writeFile (rootDir @ [''README.md'']) readme"

subsection \<open>The operations together\<close>

text \<open>
  The module exports nine operations and leaves it to its caller to invoke them. An
  \<open>emitter\<close> names one of them, and \<open>emit\<close> is the call.
\<close>

datatype emitter =
    PackageJson
  | Tsconfig
  | TailwindConfig
  | PostCSSConfig
  | EslintConfig
  | IgnixConfig
  | SrcStructure
  | Gitignore
  | Readme

fun emit :: "(string \<Rightarrow> json option) \<Rightarrow> (json \<Rightarrow> string) \<Rightarrow> path \<Rightarrow> emitter \<Rightarrow> action" where
  "emit parse stringify rootDir PackageJson = createUniversalPackageJson parse stringify rootDir"
| "emit parse stringify rootDir Tsconfig = createUniversalTsconfig stringify rootDir"
| "emit parse stringify rootDir TailwindConfig = createUniversalTailwindConfig rootDir"
| "emit parse stringify rootDir PostCSSConfig = createUniversalPostCSSConfig rootDir"
| "emit parse stringify rootDir EslintConfig = createUniversalEslintConfig stringify rootDir"
| "emit parse stringify rootDir IgnixConfig = createUniversalIgnixConfig rootDir"
| "emit parse stringify rootDir SrcStructure = createUniversalSrcStructure rootDir"
| "emit parse stringify rootDir Gitignore = createUniversalGitignore rootDir"
| "emit parse stringify rootDir Readme = createUniversalReadme rootDir"

text \<open>
  The specification's list of what a run on an empty target root leaves there, by
  operation: the files of its section 6 with their fixed content, the four directories
  it names, and the directory \<^verbatim>\<open>src\<close> that holds three of them.
\<close>

fun artifacts :: "(json \<Rightarrow> string) \<Rightarrow> path \<Rightarrow> emitter \<Rightarrow> (path \<times> node) list" where
  "artifacts stringify rootDir PackageJson =
     [(rootDir @ [''package.json''], File (stringify default_manifest))]"
| "artifacts stringify rootDir Tsconfig =
     [(rootDir @ [''tsconfig.json''], File (stringify tsconfig))]"
| "artifacts stringify rootDir TailwindConfig =
     [(rootDir @ [''tailwind.config.js''], File config)]"
| "artifacts stringify rootDir PostCSSConfig =
     [(rootDir @ [''postcss.config.js''], File postcssContents)]"
| "artifacts stringify rootDir EslintConfig =
     [(rootDir @ [''.eslintrc.json''], File (stringify eslintConfig))]"
| "artifacts stringify rootDir IgnixConfig =
     [(rootDir @ [''ignix.config.js''], File ignixConfig)]"
| "artifacts stringify rootDir SrcStructure =
     [(rootDir @ [''src''], Dir),
      (rootDir @ [''src'', ''components''], Dir),
      (rootDir @ [''src'', ''pages''], Dir),
      (rootDir @ [''src'', ''styles''], Dir),
      (rootDir @ [''dist''], Dir),
      (rootDir @ [''src'', ''components'', ''UiShell.tsx''], File uiShell),
      (rootDir @ [''src'', ''pages'', ''index.tsx''], File pageContent),
      (rootDir @ [''src'', ''styles'', ''index.css''], File styles)]"
| "artifacts stringify rootDir Gitignore =
     [(rootDir @ [''.gitignore''], File gitignoreContents)]"
| "artifacts stringify rootDir Readme =
     [(rootDir @ [''README.md''], File readme)]"

definition allArtifacts :: "(json \<Rightarrow> string) \<Rightarrow> path \<Rightarrow> (path \<times> node) list" where
  "allArtifacts stringify rootDir =
     concat (map (artifacts stringify rootDir)
       [PackageJson, Tsconfig, TailwindConfig, PostCSSConfig, EslintConfig, IgnixConfig,
        SrcStructure, Gitignore, Readme])"

text \<open>
  A world on the way from \<open>w0\<close> to the files \<open>F\<close>: nothing was logged, and every path
  is as it was in \<open>w0\<close> or as it is in \<open>F\<close>.
\<close>

definition toward :: "world \<Rightarrow> (path \<Rightarrow> node option) \<Rightarrow> world \<Rightarrow> bool" where
  "toward w0 F w \<longleftrightarrow>
     logs w = logs w0 \<and> (\<forall>q. files w q = files w0 q \<or> files w q = F q)"

section \<open>Properties of the merged manifest\<close>

text \<open>
  A spread string gives one entry for each code unit: two for \<^verbatim>\<open>ab\<close>, one for an en dash
  (three bytes), and the two surrogates for a character outside the basic plane (four
  bytes).
\<close>

lemma spread_ascii:
  "spread (Some (JStr ''ab'')) = [(''0'', JStr ''a''), (''1'', JStr ''b'')]"
  by (simp add: show_nat.simps)

lemma spread_dash:
  "spread (Some (JStr [CHR 0xE2, CHR 0x80, CHR 0x93])) =
     [(''0'', JStr [CHR 0xE2, CHR 0x80, CHR 0x93])]"
  by (simp add: show_nat.simps)

lemma spread_surrogates:
  "spread (Some (JStr [CHR 0xF0, CHR 0x9F, CHR 0x9A, CHR 0x80])) =
     [(''0'', JStr [CHR 0xED, CHR 0xA0, CHR 0xBD]), (''1'', JStr [CHR 0xED, CHR 0xBA, CHR 0x80])]"
  by (simp add: show_nat.simps surrogates_def unitBytes_def char_of_def bit_0)

lemma map_of_objectLit:
  "map_of (objectLit base props) = fold (\<lambda>(k, v) m. m(k \<mapsto> v)) props (map_of base)"
  unfolding objectLit_def
  by (induction props arbitrary: base) (auto simp: update_conv')

lemma objectLit_Nil [simp]: "objectLit [] props = fold (\<lambda>(k, v). AList.update k v) props []"
  by (simp add: objectLit_def)

lemma starterPkg_empty: "starterPkg (JObj []) = Inr default_manifest"
  by (simp add: starterPkg_def default_manifest_def scriptsLit_def dependenciesLit_def
      devDependenciesLit_def orElse_def nullish_def)

lemma nested_starterPkg:
  assumes "starterPkg pkg = Inr d"
  shows "nested d ''scripts'' k = map_of (scriptsLit pkg) k"
    and "nested d ''dependencies'' k = map_of (dependenciesLit pkg) k"
    and "nested d ''devDependencies'' k = map_of (devDependenciesLit pkg) k"
  using assms by (auto simp: starterPkg_def nested_def split: if_splits)

lemma map_of_scriptsLit:
  assumes "getProp pkg ''scripts'' = Some (JObj m)" "map_of m k = Some v"
  shows "map_of (scriptsLit pkg) k =
     (if k \<in> set [''typecheck'', ''build:css'', ''build'', ''lint'', ''format'']
          \<or> (k = ''dev'' \<and> \<not> truthy v)
      then nested default_manifest ''scripts'' k else Some v)"
  using assms
  by (cases "k = ''dev''")
     (simp_all add: scriptsLit_def map_of_objectLit orElse_def nested_def default_manifest_def)

lemma map_of_dependenciesLit:
  assumes "getProp pkg ''dependencies'' = Some (JObj m)" "map_of m k = Some v"
  shows "map_of (dependenciesLit pkg) k =
     (if k \<in> set [''react'', ''react-dom'', ''@mindfiredigital/ignix-ui'', ''clsx'', ''tailwind-merge'']
          \<and> \<not> truthy v
      then nested default_manifest ''dependencies'' k else Some v)"
proof -
  consider "k = ''react''" | "k = ''react-dom''" | "k = ''@mindfiredigital/ignix-ui''"
    | "k = ''clsx''" | "k = ''tailwind-merge''"
    | "k \<notin> set [''react'', ''react-dom'', ''@mindfiredigital/ignix-ui'', ''clsx'', ''tailwind-merge'']"
    by auto
  then show ?thesis
    using assms
    by cases
      (simp_all add: dependenciesLit_def map_of_objectLit orElse_def nested_def default_manifest_def)
qed

lemma map_of_devDependenciesLit:
  assumes "getProp pkg ''devDependencies'' = Some (JObj m)" "map_of m k = Some v"
  shows "map_of (devDependenciesLit pkg) k =
     (if k \<in> set [''typescript'', ''@types/react'', ''@types/react-dom'', ''tailwindcss'',
           ''postcss'', ''autoprefixer'', ''eslint'', ''@typescript-eslint/parser'',
           ''@typescript-eslint/eslint-plugin'', ''prettier'', ''prettier-plugin-tailwindcss'']
      then nested default_manifest ''devDependencies'' k else Some v)"
  using assms
  by (simp add: devDependenciesLit_def map_of_objectLit orElse_def nested_def default_manifest_def)

lemma starterPkg_top:
  assumes "starterPkg pkg = Inr d"
  shows "getProp d ''name'' = Some (orElse (getProp pkg ''name'') (JStr ''ignix-universal-app''))"
    and "getProp d ''version'' = Some (orElse (getProp pkg ''version'') (JStr ''0.1.0''))"
    and "getProp d ''private'' = Some (nullish (getProp pkg ''private'') (JBool True))"
    and "getProp d ''type'' = Some (orElse (getProp pkg ''type'') (JStr ''module''))"
    and "getProp d ''scripts'' = Some (JObj (scriptsLit pkg))"
    and "getProp d ''dependencies'' = Some (JObj (dependenciesLit pkg))"
    and "getProp d ''devDependencies'' = Some (JObj (devDependenciesLit pkg))"
  using assms by (auto simp: starterPkg_def split: if_splits)

lemma starterPkg_Inr: "pkg \<noteq> JNull \<Longrightarrow> \<exists>d. starterPkg pkg = Inr d"
  by (simp add: starterPkg_def)

lemma orElse_cases:
  "orElse (Some v) d = (if truthy v then v else d)" "orElse None d = d"
  by (simp_all add: orElse_def)

lemma nullish_cases:
  "nullish None d = d" "nullish (Some JNull) d = d" "v \<noteq> JNull \<Longrightarrow> nullish (Some v) d = v"
  by (simp_all add: nullish_def split: json.splits)

lemma starterPkg_doc:
  "starterPkg pkg = Inr d \<longleftrightarrow> pkg \<noteq> JNull \<and> d = JObj
      [(''name'', orElse (getProp pkg ''name'') (JStr ''ignix-universal-app'')),
       (''version'', orElse (getProp pkg ''version'') (JStr ''0.1.0'')),
       (''private'', nullish (getProp pkg ''private'') (JBool True)),
       (''type'', orElse (getProp pkg ''type'') (JStr ''module'')),
       (''scripts'', JObj (scriptsLit pkg)),
       (''dependencies'', JObj (dependenciesLit pkg)),
       (''devDependencies'', JObj (devDependenciesLit pkg))]"
  by (cases "pkg = JNull") (auto simp: starterPkg_def)

subsection \<open>Running the merge again\<close>












subsection \<open>The claims about the merged manifest\<close>

text \<open>
  Claim C1, as the code has it. Let \<open>k\<close> be a key of an existing nested mapping, with value
  \<open>v\<close>. In \<^verbatim>\<open>scripts\<close> the merged manifest maps \<open>k\<close> to \<open>v\<close>, except that the five keys
  \<^verbatim>\<open>typecheck\<close>, \<^verbatim>\<open>build:css\<close>, \<^verbatim>\<open>build\<close>, \<^verbatim>\<open>lint\<close> and \<^verbatim>\<open>format\<close> always take the default
  and \<^verbatim>\<open>dev\<close> takes it when \<open>v\<close> is falsy. In \<^verbatim>\<open>dependencies\<close> it maps \<open>k\<close> to \<open>v\<close>,
  except that the five default packages take the default when \<open>v\<close> is falsy. In
  \<^verbatim>\<open>devDependencies\<close> it maps \<open>k\<close> to \<open>v\<close>, except that the eleven default packages
  always take the default.
\<close>

theorem merge_nested_entries:
  assumes "starterPkg pkg = Inr d"
    and "getProp pkg f = Some (JObj m)"
    and "map_of m k = Some v"
  shows "(f = ''scripts'' \<longrightarrow>
           nested d f k =
             (if k \<in> set [''typecheck'', ''build:css'', ''build'', ''lint'', ''format'']
                 \<or> (k = ''dev'' \<and> \<not> truthy v)
              then nested default_manifest f k else Some v)) \<and>
         (f = ''dependencies'' \<longrightarrow>
           nested d f k =
             (if k \<in> set [''react'', ''react-dom'', ''@mindfiredigital/ignix-ui'', ''clsx'',
                    ''tailwind-merge''] \<and> \<not> truthy v
              then nested default_manifest f k else Some v)) \<and>
         (f = ''devDependencies'' \<longrightarrow>
           nested d f k =
             (if k \<in> set [''typescript'', ''@types/react'', ''@types/react-dom'',
                    ''tailwindcss'', ''postcss'', ''autoprefixer'', ''eslint'',
                    ''@typescript-eslint/parser'', ''@typescript-eslint/eslint-plugin'',
                    ''prettier'', ''prettier-plugin-tailwindcss'']
              then nested default_manifest f k else Some v))"
proof (intro conjI impI)
  assume f: "f = ''scripts''"
  show "nested d f k =
      (if k \<in> set [''typecheck'', ''build:css'', ''build'', ''lint'', ''format'']
          \<or> (k = ''dev'' \<and> \<not> truthy v)
       then nested default_manifest f k else Some v)"
    unfolding f nested_starterPkg(1)[OF assms(1)]
    by (rule map_of_scriptsLit[OF assms(2)[unfolded f] assms(3)])
next
  assume f: "f = ''dependencies''"
  show "nested d f k =
      (if k \<in> set [''react'', ''react-dom'', ''@mindfiredigital/ignix-ui'', ''clsx'',
             ''tailwind-merge''] \<and> \<not> truthy v
       then nested default_manifest f k else Some v)"
    unfolding f nested_starterPkg(2)[OF assms(1)]
    by (rule map_of_dependenciesLit[OF assms(2)[unfolded f] assms(3)])
next
  assume f: "f = ''devDependencies''"
  show "nested d f k =
      (if k \<in> set [''typescript'', ''@types/react'', ''@types/react-dom'',
             ''tailwindcss'', ''postcss'', ''autoprefixer'', ''eslint'',
             ''@typescript-eslint/parser'', ''@typescript-eslint/eslint-plugin'',
             ''prettier'', ''prettier-plugin-tailwindcss'']
       then nested default_manifest f k else Some v)"
    unfolding f nested_starterPkg(3)[OF assms(1)]
    by (rule map_of_devDependenciesLit[OF assms(2)[unfolded f] assms(3)])
qed

theorem merge_nested_entries_witness:
  "\<exists>d. starterPkg (JObj
         [(''scripts'', JObj [(''dev'', JStr ''vite''), (''build'', JStr ''vite build''),
                              (''test'', JStr ''vitest run'')]),
          (''dependencies'', JObj [(''react'', JStr ''^17.0.2''), (''zod'', JStr ''^3.23.8'')]),
          (''devDependencies'', JObj [(''vitest'', JStr ''^2.1.0''),
                                      (''typescript'', JStr ''^4.9.5'')])]) = Inr d
     \<and> nested d ''scripts'' ''dev'' = Some (JStr ''vite'')
     \<and> nested d ''scripts'' ''test'' = Some (JStr ''vitest run'')
     \<and> nested d ''scripts'' ''build'' = Some (JStr ''npm run typecheck && npm run build:css'')
     \<and> nested d ''dependencies'' ''react'' = Some (JStr ''^17.0.2'')
     \<and> nested d ''dependencies'' ''zod'' = Some (JStr ''^3.23.8'')
     \<and> nested d ''devDependencies'' ''vitest'' = Some (JStr ''^2.1.0'')
     \<and> nested d ''devDependencies'' ''typescript'' = Some (JStr ''^5.6.2'')"
proof -
  let ?s = "[(''dev'', JStr ''vite''), (''build'', JStr ''vite build''),
             (''test'', JStr ''vitest run'')]"
  let ?p = "[(''react'', JStr ''^17.0.2''), (''zod'', JStr ''^3.23.8'')]"
  let ?v = "[(''vitest'', JStr ''^2.1.0''), (''typescript'', JStr ''^4.9.5'')]"
  let ?pkg = "JObj [(''scripts'', JObj ?s), (''dependencies'', JObj ?p),
                    (''devDependencies'', JObj ?v)]"
  obtain d where d: "starterPkg ?pkg = Inr d"
    using starterPkg_Inr by blast
  have gs: "getProp ?pkg ''scripts'' = Some (JObj ?s)"
    and gp: "getProp ?pkg ''dependencies'' = Some (JObj ?p)"
    and gv: "getProp ?pkg ''devDependencies'' = Some (JObj ?v)"
    by simp_all
  have "nested d ''scripts'' ''dev'' = Some (JStr ''vite'')"
    using merge_nested_entries[OF d gs, of "''dev''" "JStr ''vite''"] by simp
  moreover have "nested d ''scripts'' ''test'' = Some (JStr ''vitest run'')"
    using merge_nested_entries[OF d gs, of "''test''" "JStr ''vitest run''"] by simp
  moreover have
    "nested d ''scripts'' ''build'' = Some (JStr ''npm run typecheck && npm run build:css'')"
    using merge_nested_entries[OF d gs, of "''build''" "JStr ''vite build''"]
    by (simp add: nested_def default_manifest_def)
  moreover have "nested d ''dependencies'' ''react'' = Some (JStr ''^17.0.2'')"
    using merge_nested_entries[OF d gp, of "''react''" "JStr ''^17.0.2''"] by simp
  moreover have "nested d ''dependencies'' ''zod'' = Some (JStr ''^3.23.8'')"
    using merge_nested_entries[OF d gp, of "''zod''" "JStr ''^3.23.8''"] by simp
  moreover have "nested d ''devDependencies'' ''vitest'' = Some (JStr ''^2.1.0'')"
    using merge_nested_entries[OF d gv, of "''vitest''" "JStr ''^2.1.0''"] by simp
  moreover have "nested d ''devDependencies'' ''typescript'' = Some (JStr ''^5.6.2'')"
    using merge_nested_entries[OF d gv, of "''typescript''" "JStr ''^4.9.5''"]
    by (simp add: nested_def default_manifest_def)
  ultimately show ?thesis using d by simp
qed

theorem merge_nested_entries_counterexample:
  "map_of [(''typescript'', JStr ''^4.9.5'')] ''typescript'' = Some (JStr ''^4.9.5'') \<and>
   (case starterPkg (JObj [(''devDependencies'', JObj [(''typescript'', JStr ''^4.9.5'')])]) of
      Inr d \<Rightarrow> nested d ''devDependencies'' ''typescript'' = Some (JStr ''^5.6.2'')
    | Inl e \<Rightarrow> False)"
  by (simp add: starterPkg_def nested_def devDependenciesLit_def objectLit_def orElse_def)

text \<open>
  Claim C2, as the code has it. The merged manifest is an object with exactly the seven
  keys \<^verbatim>\<open>name\<close>, \<^verbatim>\<open>version\<close>, \<^verbatim>\<open>private\<close>, \<^verbatim>\<open>type\<close>, \<^verbatim>\<open>scripts\<close>, \<^verbatim>\<open>dependencies\<close> and
  \<^verbatim>\<open>devDependencies\<close>, in this order: the literal does not spread \<^verbatim>\<open>pkg\<close>, so no other
  top-level key of the existing manifest is in it.
\<close>

theorem merge_top_level_keys:
  assumes "starterPkg pkg = Inr d"
  shows "map fst (spread (Some d)) =
            [''name'', ''version'', ''private'', ''type'', ''scripts'', ''dependencies'',
             ''devDependencies''] \<and>
         (k \<notin> set [''name'', ''version'', ''private'', ''type'', ''scripts'', ''dependencies'',
             ''devDependencies''] \<longrightarrow> getProp d k = None)"
  using assms unfolding starterPkg_doc by simp

theorem merge_top_level_keys_witness:
  "\<exists>d. starterPkg (JObj [(''name'', JStr ''foo''), (''license'', JStr ''MIT'')]) = Inr d \<and>
       map fst (spread (Some d)) =
            [''name'', ''version'', ''private'', ''type'', ''scripts'', ''dependencies'',
             ''devDependencies''] \<and>
       getProp d ''license'' = None"
proof -
  obtain d where d: "starterPkg (JObj [(''name'', JStr ''foo''), (''license'', JStr ''MIT'')]) = Inr d"
    using starterPkg_Inr by blast
  show ?thesis
    using merge_top_level_keys[OF d, of "''license''"] d by simp
qed

theorem merge_top_level_keys_counterexample:
  "getProp (JObj [(''name'', JStr ''foo''), (''license'', JStr ''MIT'')]) ''license''
     = Some (JStr ''MIT'') \<and>
   (case starterPkg (JObj [(''name'', JStr ''foo''), (''license'', JStr ''MIT'')]) of
      Inr d \<Rightarrow> getProp d ''license'' = None
    | Inl e \<Rightarrow> False)"
  by (simp add: starterPkg_def)

text \<open>
  Claim C4, as the code has it. When the existing \<^verbatim>\<open>scripts\<close> mapping has a \<^verbatim>\<open>dev\<close> entry
  \<open>v\<close>, the merged \<^verbatim>\<open>scripts.dev\<close> is \<open>v\<close> if \<open>v\<close> is truthy (a non-empty string, say) and
  the default command otherwise. Merging \<^verbatim>\<open>{"name":"foo","scripts":{"dev":"custom"}}\<close>
  gives the name \<^verbatim>\<open>foo\<close> and the scripts \<^verbatim>\<open>dev\<close> = \<^verbatim>\<open>custom\<close>, \<^verbatim>\<open>typecheck\<close> = \<^verbatim>\<open>tsc --noEmit\<close>
  and the four other defaults.
\<close>

theorem merge_scripts_dev:
  \<open>(\<forall>pkg d m v. starterPkg pkg = Inr d \<and> getProp pkg ''scripts'' = Some (JObj m)
        \<and> map_of m ''dev'' = Some v \<longrightarrow>
        nested d ''scripts'' ''dev'' =
          Some (if truthy v then v
                else JStr ''echo "Plug your preferred framework dev server here (e.g. vite dev)"''))
   \<and> (\<exists>d. starterPkg (JObj [(''name'', JStr ''foo''),
                              (''scripts'', JObj [(''dev'', JStr ''custom'')])]) = Inr d
        \<and> getProp d ''name'' = Some (JStr ''foo'')
        \<and> getProp d ''scripts'' = Some (JObj
            [(''dev'', JStr ''custom''),
             (''typecheck'', JStr ''tsc --noEmit''),
             (''build:css'',
                JStr ''tailwindcss -i ./src/styles/index.css -o ./dist/styles.css --minify''),
             (''build'', JStr ''npm run typecheck && npm run build:css''),
             (''lint'', JStr ''eslint "src/**/*.{ts,tsx}" --max-warnings=0''),
             (''format'', JStr ''prettier --write "src/**/*.{ts,tsx,css,md}"'')]))\<close>
proof (intro conjI allI impI)
  fix pkg d m v
  assume a: "starterPkg pkg = Inr d \<and> getProp pkg ''scripts'' = Some (JObj m)
        \<and> map_of m ''dev'' = Some v"
  then have "map_of (scriptsLit pkg) ''dev'' =
      (if truthy v then Some v else nested default_manifest ''scripts'' ''dev'')"
    using map_of_scriptsLit[of pkg m "''dev''" v] by simp
  moreover have "nested d ''scripts'' ''dev'' = map_of (scriptsLit pkg) ''dev''"
    using a nested_starterPkg(1) by simp
  moreover have \<open>nested default_manifest ''scripts'' ''dev'' =
     Some (JStr ''echo "Plug your preferred framework dev server here (e.g. vite dev)"'')\<close>
    by (simp add: nested_def default_manifest_def)
  ultimately show \<open>nested d ''scripts'' ''dev'' =
          Some (if truthy v then v
                else JStr ''echo "Plug your preferred framework dev server here (e.g. vite dev)"'')\<close>
    by simp
next
  show \<open>\<exists>d. starterPkg (JObj [(''name'', JStr ''foo''),
                              (''scripts'', JObj [(''dev'', JStr ''custom'')])]) = Inr d
        \<and> getProp d ''name'' = Some (JStr ''foo'')
        \<and> getProp d ''scripts'' = Some (JObj
            [(''dev'', JStr ''custom''),
             (''typecheck'', JStr ''tsc --noEmit''),
             (''build:css'',
                JStr ''tailwindcss -i ./src/styles/index.css -o ./dist/styles.css --minify''),
             (''build'', JStr ''npm run typecheck && npm run build:css''),
             (''lint'', JStr ''eslint "src/**/*.{ts,tsx}" --max-warnings=0''),
             (''format'', JStr ''prettier --write "src/**/*.{ts,tsx,css,md}"'')])\<close>
    by (simp add: starterPkg_def scriptsLit_def objectLit_def orElse_def)
qed

theorem merge_scripts_dev_witness:
  "\<exists>d. starterPkg (JObj [(''scripts'', JObj [(''dev'', JStr ''vite dev'')])]) = Inr d
     \<and> getProp (JObj [(''scripts'', JObj [(''dev'', JStr ''vite dev'')])]) ''scripts''
         = Some (JObj [(''dev'', JStr ''vite dev'')])
     \<and> map_of [(''dev'', JStr ''vite dev'')] ''dev'' = Some (JStr ''vite dev'')
     \<and> nested d ''scripts'' ''dev'' = Some (JStr ''vite dev'')"
proof -
  obtain d where d: "starterPkg (JObj [(''scripts'', JObj [(''dev'', JStr ''vite dev'')])]) = Inr d"
    using starterPkg_Inr by blast
  have "nested d ''scripts'' ''dev'' = Some (JStr ''vite dev'')"
    using merge_scripts_dev[THEN conjunct1, rule_format,
        of "JObj [(''scripts'', JObj [(''dev'', JStr ''vite dev'')])]" d
           "[(''dev'', JStr ''vite dev'')]" "JStr ''vite dev''"] d
    by simp
  with d show ?thesis by simp
qed

theorem merge_scripts_dev_counterexample:
  \<open>map_of [(''dev'', JStr [])] ''dev'' = Some (JStr []) \<and>
   (case starterPkg (JObj [(''scripts'', JObj [(''dev'', JStr [])])]) of
      Inr d \<Rightarrow> nested d ''scripts'' ''dev'' =
        Some (JStr ''echo "Plug your preferred framework dev server here (e.g. vite dev)"'')
    | Inl e \<Rightarrow> False)\<close>
  by (simp add: starterPkg_def nested_def scriptsLit_def objectLit_def orElse_def)

text \<open>
  Claim C5, as the code has it. A package \<open>k\<close> of the existing \<^verbatim>\<open>dependencies\<close> mapping,
  with version range \<open>r\<close>, keeps \<open>r\<close> in the merged manifest, unless \<open>r\<close> is the empty range
  and \<open>k\<close> is one of the five default packages: then it takes the default range.
\<close>

theorem merge_dependency_ranges:
  assumes "starterPkg pkg = Inr d"
    and "getProp pkg ''dependencies'' = Some (JObj m)"
    and "map_of m k = Some (JStr r)"
  shows "nested d ''dependencies'' k =
     (if k \<in> set [''react'', ''react-dom'', ''@mindfiredigital/ignix-ui'', ''clsx'',
                    ''tailwind-merge''] \<and> r = []
      then nested default_manifest ''dependencies'' k
      else Some (JStr r))"
proof -
  have "nested d ''dependencies'' k = map_of (dependenciesLit pkg) k"
    by (rule nested_starterPkg(2)[OF assms(1)])
  also have "\<dots> =
     (if k \<in> set [''react'', ''react-dom'', ''@mindfiredigital/ignix-ui'', ''clsx'',
                    ''tailwind-merge''] \<and> \<not> truthy (JStr r)
      then nested default_manifest ''dependencies'' k
      else Some (JStr r))"
    by (rule map_of_dependenciesLit[OF assms(2,3)])
  finally show ?thesis by simp
qed

theorem merge_dependency_ranges_witness:
  "\<exists>d. starterPkg (JObj [(''dependencies'',
            JObj [(''react'', JStr ''^17.0.2''), (''zod'', JStr ''^3.23.8'')])]) = Inr d
     \<and> getProp (JObj [(''dependencies'',
            JObj [(''react'', JStr ''^17.0.2''), (''zod'', JStr ''^3.23.8'')])]) ''dependencies''
         = Some (JObj [(''react'', JStr ''^17.0.2''), (''zod'', JStr ''^3.23.8'')])
     \<and> map_of [(''react'', JStr ''^17.0.2''), (''zod'', JStr ''^3.23.8'')] ''react''
         = Some (JStr ''^17.0.2'')
     \<and> nested d ''dependencies'' ''react'' = Some (JStr ''^17.0.2'')"
proof -
  obtain d where d: "starterPkg (JObj [(''dependencies'',
            JObj [(''react'', JStr ''^17.0.2''), (''zod'', JStr ''^3.23.8'')])]) = Inr d"
    using starterPkg_Inr by blast
  have "nested d ''dependencies'' ''react'' = Some (JStr ''^17.0.2'')"
    using merge_dependency_ranges[OF d, of
        "[(''react'', JStr ''^17.0.2''), (''zod'', JStr ''^3.23.8'')]" "''react''" "''^17.0.2''"]
    by simp
  with d show ?thesis by simp
qed

theorem merge_dependency_ranges_counterexample:
  "map_of [(''react'', JStr [])] ''react'' = Some (JStr []) \<and>
   (case starterPkg (JObj [(''dependencies'', JObj [(''react'', JStr [])])]) of
      Inr d \<Rightarrow> nested d ''dependencies'' ''react'' = Some (JStr ''^18.3.1'')
    | Inl e \<Rightarrow> False)"
  by (simp add: starterPkg_def nested_def dependenciesLit_def objectLit_def orElse_def)

text \<open>
  Claim C8, as the code has it. Each of \<^verbatim>\<open>name\<close>, \<^verbatim>\<open>version\<close> and \<^verbatim>\<open>type\<close> keeps the
  existing value when that value is truthy, and takes the default when the field is
  absent or falsy (\<^verbatim>\<open>||\<close>). \<^verbatim>\<open>private\<close> keeps the existing value when it is present and
  not \<^verbatim>\<open>null\<close>, and takes the default \<^verbatim>\<open>true\<close> otherwise (\<^verbatim>\<open>??\<close>).
\<close>

theorem merge_scalar_fields:
  assumes "starterPkg pkg = Inr d"
  shows "(f \<in> set [''name'', ''version'', ''type''] \<longrightarrow>
            (\<forall>v. getProp pkg f = Some v \<and> truthy v \<longrightarrow> getProp d f = Some v) \<and>
            ((getProp pkg f = None \<or> (\<exists>v. getProp pkg f = Some v \<and> \<not> truthy v)) \<longrightarrow>
               getProp d f = getProp default_manifest f)) \<and>
         (\<forall>v. getProp pkg ''private'' = Some v \<and> v \<noteq> JNull \<longrightarrow>
               getProp d ''private'' = Some v) \<and>
         ((getProp pkg ''private'' = None \<or> getProp pkg ''private'' = Some JNull) \<longrightarrow>
               getProp d ''private'' = getProp default_manifest ''private'')"
proof -
  have d: "getProp d ''name'' = Some (orElse (getProp pkg ''name'') (JStr ''ignix-universal-app''))"
    "getProp d ''version'' = Some (orElse (getProp pkg ''version'') (JStr ''0.1.0''))"
    "getProp d ''private'' = Some (nullish (getProp pkg ''private'') (JBool True))"
    "getProp d ''type'' = Some (orElse (getProp pkg ''type'') (JStr ''module''))"
    using starterPkg_top[OF assms] by simp_all
  have dm: "getProp default_manifest ''name'' = Some (JStr ''ignix-universal-app'')"
    "getProp default_manifest ''version'' = Some (JStr ''0.1.0'')"
    "getProp default_manifest ''private'' = Some (JBool True)"
    "getProp default_manifest ''type'' = Some (JStr ''module'')"
    by (simp_all add: default_manifest_def)
  have p: "\<forall>v. getProp pkg ''private'' = Some v \<and> v \<noteq> JNull \<longrightarrow>
               getProp d ''private'' = Some v"
    by (simp add: d nullish_cases)
  have q: "(getProp pkg ''private'' = None \<or> getProp pkg ''private'' = Some JNull) \<longrightarrow>
               getProp d ''private'' = getProp default_manifest ''private''"
    by (auto simp: d dm nullish_cases)
  have s: "(\<forall>v. getProp pkg f = Some v \<and> truthy v \<longrightarrow> getProp d f = Some v) \<and>
            ((getProp pkg f = None \<or> (\<exists>v. getProp pkg f = Some v \<and> \<not> truthy v)) \<longrightarrow>
               getProp d f = getProp default_manifest f)"
    if "f = ''name'' \<or> f = ''version'' \<or> f = ''type''"
    using that by (auto simp: d dm orElse_cases)
  from p q s show ?thesis by simp
qed

theorem merge_scalar_fields_witness:
  "\<exists>d. starterPkg (JObj [(''name'', JStr ''foo''), (''private'', JBool False)]) = Inr d
     \<and> getProp d ''name'' = Some (JStr ''foo'')
     \<and> getProp d ''version'' = Some (JStr ''0.1.0'')
     \<and> getProp d ''private'' = Some (JBool False)"
proof -
  obtain d where d: "starterPkg (JObj [(''name'', JStr ''foo''), (''private'', JBool False)]) = Inr d"
    using starterPkg_Inr by blast
  have "getProp d ''name'' = Some (JStr ''foo'')"
    using merge_scalar_fields[OF d, of "''name''"] by simp
  moreover have "getProp d ''version'' = Some (JStr ''0.1.0'')"
    using merge_scalar_fields[OF d, of "''version''"] by (simp add: default_manifest_def)
  moreover have "getProp d ''private'' = Some (JBool False)"
    using merge_scalar_fields[OF d, of "''name''"] by simp
  ultimately show ?thesis using d by simp
qed

theorem merge_scalar_fields_counterexample:
  "getProp (JObj [(''name'', JStr [])]) ''name'' = Some (JStr []) \<and>
   (case starterPkg (JObj [(''name'', JStr [])]) of
      Inr d \<Rightarrow> getProp d ''name'' = Some (JStr ''ignix-universal-app'')
    | Inl e \<Rightarrow> False)"
  by (simp add: starterPkg_def orElse_def)

section \<open>Properties of the manifest operation\<close>

lemma readExisting_absent:
  "files w p = None \<Longrightarrow> readExisting parse p w = (JObj [], w)"
  by (simp add: readExisting_def pathExists_def)

lemma readExisting_unparsable:
  "files w p = Some (File s) \<Longrightarrow> parse s = None \<Longrightarrow>
   readExisting parse p w =
     (JObj [], logger_warn ''Unable to parse package.json, generating a fresh one.'' w)"
  by (simp add: readExisting_def pathExists_def readJSON_def)


lemma createUniversalPackageJson_eq:
  "readExisting parse (rootDir @ [''package.json'']) w = (pkg, w1) \<Longrightarrow>
   starterPkg pkg = Inr d \<Longrightarrow>
   createUniversalPackageJson parse stringify rootDir w =
     writeFile (rootDir @ [''package.json'']) (stringify d) w1"
  by (simp add: createUniversalPackageJson_def writeJSON_def)

lemma writeFile_create:
  "files w p = None \<Longrightarrow> files w (butlast p) = Some Dir \<Longrightarrow>
   writeFile p s w = (None, w\<lparr>files := (files w)(p \<mapsto> File s)\<rparr>)"
  by (simp add: writeFile_def)


text \<open>
  Claim C3. When nothing exists at \<^verbatim>\<open>package.json\<close> under the target root, the operation
  is the write of the fixed default document to that path; in a root that is a
  directory it succeeds and leaves exactly that document there.
\<close>

theorem fresh_manifest_is_default:
  assumes "files w (rootDir @ [''package.json'']) = None"
  shows "createUniversalPackageJson parse stringify rootDir w =
           writeJSON stringify (rootDir @ [''package.json'']) default_manifest w \<and>
         (files w rootDir = Some Dir \<longrightarrow>
            createUniversalPackageJson parse stringify rootDir w =
              (None, w\<lparr>files := (files w)(rootDir @ [''package.json''] \<mapsto>
                                  File (stringify default_manifest))\<rparr>))"
proof -
  have e: "createUniversalPackageJson parse stringify rootDir w =
      writeFile (rootDir @ [''package.json'']) (stringify default_manifest) w"
    by (rule createUniversalPackageJson_eq[OF readExisting_absent[OF assms] starterPkg_empty])
  have "writeFile (rootDir @ [''package.json'']) (stringify default_manifest) w =
          (None, w\<lparr>files := (files w)(rootDir @ [''package.json''] \<mapsto>
                                  File (stringify default_manifest))\<rparr>)"
    if "files w rootDir = Some Dir"
    using assms that by (simp add: writeFile_create)
  with e show ?thesis by (simp add: writeJSON_def)
qed

theorem fresh_manifest_is_default_witness:
  "files \<lparr>files = [[] \<mapsto> Dir, [''app''] \<mapsto> Dir], logs = []\<rparr> [''app'', ''package.json'']
     = None \<and>
   files \<lparr>files = [[] \<mapsto> Dir, [''app''] \<mapsto> Dir], logs = []\<rparr> [''app''] = Some Dir \<and>
   createUniversalPackageJson (\<lambda>s. None) (\<lambda>d. ''{}'') [''app'']
      \<lparr>files = [[] \<mapsto> Dir, [''app''] \<mapsto> Dir], logs = []\<rparr>
    = (None, \<lparr>files = [[] \<mapsto> Dir, [''app''] \<mapsto> Dir,
                         [''app'', ''package.json''] \<mapsto> File ''{}''], logs = []\<rparr>)"
proof -
  have a: "files \<lparr>files = [[] \<mapsto> Dir, [''app''] \<mapsto> Dir], logs = []\<rparr>
      ([''app''] @ [''package.json'']) = None"
    by simp
  show ?thesis
    using fresh_manifest_is_default[OF a, of "\<lambda>s. None" "\<lambda>d. ''{}''", THEN conjunct2]
    by simp
qed

text \<open>
  Claim C6. When \<^verbatim>\<open>package.json\<close> is a file that does not parse, the operation throws
  nothing, records the warning, and replaces the file by the full default document,
  the one it writes when no file exists.
\<close>

theorem unparsable_manifest_recovers:
  assumes "files w (rootDir @ [''package.json'']) = Some (File s)"
    and "parse s = None"
  shows "createUniversalPackageJson parse stringify rootDir w =
           (None, w\<lparr>files := (files w)(rootDir @ [''package.json''] \<mapsto>
                               File (stringify default_manifest)),
                     logs := logs w @
                       [Warn ''Unable to parse package.json, generating a fresh one.'']\<rparr>)"
proof -
  have "createUniversalPackageJson parse stringify rootDir w =
      writeFile (rootDir @ [''package.json'']) (stringify default_manifest)
        (logger_warn ''Unable to parse package.json, generating a fresh one.'' w)"
    by (rule createUniversalPackageJson_eq[OF
          readExisting_unparsable[of w _ s parse, OF assms] starterPkg_empty])
  also have "\<dots> = (None, w\<lparr>files := (files w)(rootDir @ [''package.json''] \<mapsto>
                               File (stringify default_manifest)),
                     logs := logs w @
                       [Warn ''Unable to parse package.json, generating a fresh one.'']\<rparr>)"
    using assms(1) by (simp add: writeFile_def logger_warn_def)
  finally show ?thesis .
qed

theorem unparsable_manifest_recovers_witness:
  "files \<lparr>files = [[] \<mapsto> Dir, [''app''] \<mapsto> Dir,
              [''app'', ''package.json''] \<mapsto> File ''{ name: ''], logs = []\<rparr>
      [''app'', ''package.json''] = Some (File ''{ name: '') \<and>
   createUniversalPackageJson (\<lambda>s. None) (\<lambda>d. ''{}'') [''app'']
      \<lparr>files = [[] \<mapsto> Dir, [''app''] \<mapsto> Dir,
                [''app'', ''package.json''] \<mapsto> File ''{ name: ''], logs = []\<rparr>
    = (None, \<lparr>files = [[] \<mapsto> Dir, [''app''] \<mapsto> Dir,
                         [''app'', ''package.json''] \<mapsto> File ''{}''],
               logs = [Warn ''Unable to parse package.json, generating a fresh one.'']\<rparr>)"
proof -
  have a: "files \<lparr>files = [[] \<mapsto> Dir, [''app''] \<mapsto> Dir,
              [''app'', ''package.json''] \<mapsto> File ''{ name: ''], logs = []\<rparr>
      ([''app''] @ [''package.json'']) = Some (File ''{ name: '')"
    by simp
  have b: "(\<lambda>s. None :: json option) ''{ name: '' = None"
    by simp
  show ?thesis
    using unparsable_manifest_recovers[of _ "[''app'']" "''{ name: ''" "\<lambda>s. None", OF a b,
        of "\<lambda>d. ''{}''"]
    by simp
qed

lemma writeFile_ok:
  "writeFile p s w = (None, w') \<Longrightarrow> w' = w\<lparr>files := (files w)(p \<mapsto> File s)\<rparr>"
  by (auto simp: writeFile_def split: option.splits node.splits)




section \<open>Properties of the file operations\<close>

lemma writeFile_noop:
  "files w p = Some (File s) \<Longrightarrow> writeFile p s w = (None, w)"
  by (simp add: writeFile_def fun_upd_idem)

lemma writeFile_idem:
  assumes "writeFile p s w = (None, w')"
  shows "writeFile p s w' = (None, w')"
proof -
  have "w' = w\<lparr>files := (files w)(p \<mapsto> File s)\<rparr>"
    using assms by (rule writeFile_ok)
  then have "files w' p = Some (File s)" by simp
  then show ?thesis by (rule writeFile_noop)
qed

lemma mkdirs_noop:
  "(\<And>q. q \<in> set qs \<Longrightarrow> fs q = Some Dir) \<Longrightarrow> mkdirs qs fs = Inr fs"
  by (induction qs) simp_all

lemma mkdirs_result:
  "mkdirs qs fs = Inr fs' \<Longrightarrow>
   fs' = (\<lambda>p. if p \<in> set qs \<and> fs p = None then Some Dir else fs p) \<and>
   (\<forall>q \<in> set qs. fs' q = Some Dir)"
proof (induction qs arbitrary: fs)
  case Nil
  then show ?case by simp
next
  case (Cons q qs)
  show ?case
  proof (cases "fs q")
    case None
    with Cons.prems have m: "mkdirs qs (fs(q \<mapsto> Dir)) = Inr fs'" by simp
    from Cons.IH[OF m] show ?thesis using None by (auto simp: fun_eq_iff)
  next
    case (Some n)
    show ?thesis
    proof (cases n)
      case Dir
      with Some Cons.prems have m: "mkdirs qs fs = Inr fs'" by simp
      from Cons.IH[OF m] show ?thesis using Some Dir by (auto simp: fun_eq_iff)
    next
      case (File x)
      with Some Cons.prems show ?thesis by simp
    qed
  qed
qed

lemma ensureDir_noop:
  assumes "\<And>q. prefix q p \<Longrightarrow> files w q = Some Dir"
  shows "ensureDir p w = (None, w)"
proof -
  have "mkdirs (prefixes p) (files w) = Inr (files w)"
    by (rule mkdirs_noop) (simp add: assms)
  then show ?thesis by (simp add: ensureDir_def)
qed

lemma ensureDir_ok:
  assumes "ensureDir p w = (None, w')"
  shows "w' = w\<lparr>files := (\<lambda>q. if prefix q p \<and> files w q = None then Some Dir
                              else files w q)\<rparr>"
    and "prefix q p \<Longrightarrow> files w' q = Some Dir"
proof -
  obtain fs where fs: "mkdirs (prefixes p) (files w) = Inr fs" and w': "w' = w\<lparr>files := fs\<rparr>"
    using assms by (auto simp: ensureDir_def split: sum.splits)
  note r = mkdirs_result[OF fs]
  show "w' = w\<lparr>files := (\<lambda>q. if prefix q p \<and> files w q = None then Some Dir
                              else files w q)\<rparr>"
    using r[THEN conjunct1] by (simp add: w')
  show "files w' q = Some Dir" if "prefix q p"
  proof -
    have "q \<in> set (prefixes p)" using that by simp
    with r[THEN conjunct2] have "fs q = Some Dir" by (rule bspec)
    then show ?thesis by (simp add: w')
  qed
qed

lemma ensureDir_keeps:
  "ensureDir p w = (None, w') \<Longrightarrow> files w q = Some x \<Longrightarrow> files w' q = Some x"
  using ensureDir_ok(1)[of p w w'] by simp

lemma writeFile_keeps:
  "writeFile f s w = (None, w') \<Longrightarrow> q \<noteq> f \<Longrightarrow> files w' q = files w q"
  using writeFile_ok[of f s w w'] by simp

lemma writeFile_sets:
  "writeFile f s w = (None, w') \<Longrightarrow> files w' f = Some (File s)"
  using writeFile_ok[of f s w w'] by simp

lemma sequence_Cons_ok:
  "sequence (a # as) w = (None, w') \<longleftrightarrow>
     (\<exists>w1. a w = (None, w1) \<and> sequence as w1 = (None, w'))"
  by (cases "a w") (auto split: option.splits)

lemma ensureDir_keeps_dir:
  "ensureDir p w = (None, w') \<Longrightarrow> files w q = Some Dir \<Longrightarrow> files w' q = Some Dir"
  by (rule ensureDir_keeps)

lemma writeFile_keeps_dir:
  assumes "writeFile f s w = (None, w')" and "files w q = Some Dir"
  shows "files w' q = Some Dir"
proof (cases "q = f")
  case True
  with assms show ?thesis by (simp add: writeFile_def)
next
  case False
  with assms show ?thesis by (simp add: writeFile_keeps)
qed

lemma createUniversalSrcStructure_steps:
  assumes "createUniversalSrcStructure rootDir w = (None, w')"
  obtains w1 w2 w3 w4 w5 w6 where
    "ensureDir (rootDir @ [''src'', ''components'']) w = (None, w1)"
    "ensureDir (rootDir @ [''src'', ''pages'']) w1 = (None, w2)"
    "ensureDir (rootDir @ [''src'', ''styles'']) w2 = (None, w3)"
    "ensureDir (rootDir @ [''dist'']) w3 = (None, w4)"
    "writeFile (rootDir @ [''src'', ''components'', ''UiShell.tsx'']) uiShell w4 = (None, w5)"
    "writeFile (rootDir @ [''src'', ''pages'', ''index.tsx'']) pageContent w5 = (None, w6)"
    "writeFile (rootDir @ [''src'', ''styles'', ''index.css'']) styles w6 = (None, w')"
  using assms
  unfolding createUniversalSrcStructure_def Let_def sequence_Cons_ok
  by auto

lemma createUniversalSrcStructure_idem:
  assumes "createUniversalSrcStructure rootDir w = (None, w')"
  shows "createUniversalSrcStructure rootDir w' = (None, w')"
proof -
  from assms obtain w1 w2 w3 w4 w5 w6 where
    s1: "ensureDir (rootDir @ [''src'', ''components'']) w = (None, w1)" and
    s2: "ensureDir (rootDir @ [''src'', ''pages'']) w1 = (None, w2)" and
    s3: "ensureDir (rootDir @ [''src'', ''styles'']) w2 = (None, w3)" and
    s4: "ensureDir (rootDir @ [''dist'']) w3 = (None, w4)" and
    s5: "writeFile (rootDir @ [''src'', ''components'', ''UiShell.tsx'']) uiShell w4 = (None, w5)" and
    s6: "writeFile (rootDir @ [''src'', ''pages'', ''index.tsx'']) pageContent w5 = (None, w6)" and
    s7: "writeFile (rootDir @ [''src'', ''styles'', ''index.css'']) styles w6 = (None, w')"
    by (rule createUniversalSrcStructure_steps)
  have from4: "files w' q = Some Dir" if "files w4 q = Some Dir" for q
    using that
    by (intro writeFile_keeps_dir[OF s7] writeFile_keeps_dir[OF s6] writeFile_keeps_dir[OF s5])
  have from3: "files w' q = Some Dir" if "files w3 q = Some Dir" for q
    using that by (intro from4 ensureDir_keeps_dir[OF s4])
  have from2: "files w' q = Some Dir" if "files w2 q = Some Dir" for q
    using that by (intro from3 ensureDir_keeps_dir[OF s3])
  have from1: "files w' q = Some Dir" if "files w1 q = Some Dir" for q
    using that by (intro from2 ensureDir_keeps_dir[OF s2])
  have e1: "ensureDir (rootDir @ [''src'', ''components'']) w' = (None, w')"
    by (rule ensureDir_noop) (intro from1 ensureDir_ok(2)[OF s1])
  have e2: "ensureDir (rootDir @ [''src'', ''pages'']) w' = (None, w')"
    by (rule ensureDir_noop) (intro from2 ensureDir_ok(2)[OF s2])
  have e3: "ensureDir (rootDir @ [''src'', ''styles'']) w' = (None, w')"
    by (rule ensureDir_noop) (intro from3 ensureDir_ok(2)[OF s3])
  have e4: "ensureDir (rootDir @ [''dist'']) w' = (None, w')"
    by (rule ensureDir_noop) (intro from4 ensureDir_ok(2)[OF s4])
  have "files w5 (rootDir @ [''src'', ''components'', ''UiShell.tsx'']) = Some (File uiShell)"
    by (rule writeFile_sets[OF s5])
  then have "files w6 (rootDir @ [''src'', ''components'', ''UiShell.tsx'']) = Some (File uiShell)"
    by (simp add: writeFile_keeps[OF s6])
  then have "files w' (rootDir @ [''src'', ''components'', ''UiShell.tsx'']) = Some (File uiShell)"
    by (simp add: writeFile_keeps[OF s7])
  then have f1: "writeFile (rootDir @ [''src'', ''components'', ''UiShell.tsx'']) uiShell w' = (None, w')"
    by (rule writeFile_noop)
  have "files w6 (rootDir @ [''src'', ''pages'', ''index.tsx'']) = Some (File pageContent)"
    by (rule writeFile_sets[OF s6])
  then have "files w' (rootDir @ [''src'', ''pages'', ''index.tsx'']) = Some (File pageContent)"
    by (simp add: writeFile_keeps[OF s7])
  then have f2: "writeFile (rootDir @ [''src'', ''pages'', ''index.tsx'']) pageContent w' = (None, w')"
    by (rule writeFile_noop)
  have f3: "writeFile (rootDir @ [''src'', ''styles'', ''index.css'']) styles w' = (None, w')"
    by (rule writeFile_idem[OF s7])
  show ?thesis
    by (simp add: createUniversalSrcStructure_def e1 e2 e3 e4 f1 f2 f3)
qed

text \<open>
  Claim C7. Each operation that writes fixed content is idempotent: when a run of it
  succeeds, a second run on the world it left succeeds too and leaves that world as
  it is, so every file holds the bytes the first run wrote.
\<close>

theorem static_emitters_idempotent:
  assumes "e \<noteq> PackageJson"
    and "emit parse stringify rootDir e w = (None, w')"
  shows "emit parse stringify rootDir e w' = (None, w')"
proof (cases e)
  case PackageJson
  with assms(1) show ?thesis by simp
next
  case Tsconfig
  with assms(2) show ?thesis
    by (auto simp: createUniversalTsconfig_def writeJSON_def intro: writeFile_idem)
next
  case TailwindConfig
  with assms(2) show ?thesis
    by (auto simp: createUniversalTailwindConfig_def intro: writeFile_idem)
next
  case PostCSSConfig
  with assms(2) show ?thesis
    by (auto simp: createUniversalPostCSSConfig_def intro: writeFile_idem)
next
  case EslintConfig
  with assms(2) show ?thesis
    by (auto simp: createUniversalEslintConfig_def writeJSON_def intro: writeFile_idem)
next
  case IgnixConfig
  with assms(2) show ?thesis
    by (auto simp: createUniversalIgnixConfig_def intro: writeFile_idem)
next
  case SrcStructure
  with assms(2) show ?thesis
    by (simp add: createUniversalSrcStructure_idem)
next
  case Gitignore
  with assms(2) show ?thesis
    by (auto simp: createUniversalGitignore_def intro: writeFile_idem)
next
  case Readme
  with assms(2) show ?thesis
    by (auto simp: createUniversalReadme_def intro: writeFile_idem)
qed

theorem static_emitters_idempotent_witness:
  "SrcStructure \<noteq> PackageJson \<and>
   emit (\<lambda>s. None) (\<lambda>d. ''{}'') [''app''] SrcStructure
      \<lparr>files = [[] \<mapsto> Dir, [''app''] \<mapsto> Dir], logs = []\<rparr>
    = (None, \<lparr>files = [[] \<mapsto> Dir, [''app''] \<mapsto> Dir,
                  [''app'', ''src''] \<mapsto> Dir,
                  [''app'', ''src'', ''components''] \<mapsto> Dir,
                  [''app'', ''src'', ''pages''] \<mapsto> Dir,
                  [''app'', ''src'', ''styles''] \<mapsto> Dir,
                  [''app'', ''dist''] \<mapsto> Dir,
                  [''app'', ''src'', ''components'', ''UiShell.tsx''] \<mapsto> File uiShell,
                  [''app'', ''src'', ''pages'', ''index.tsx''] \<mapsto> File pageContent,
                  [''app'', ''src'', ''styles'', ''index.css''] \<mapsto> File styles],
               logs = []\<rparr>) \<and>
   emit (\<lambda>s. None) (\<lambda>d. ''{}'') [''app''] SrcStructure
      \<lparr>files = [[] \<mapsto> Dir, [''app''] \<mapsto> Dir,
                  [''app'', ''src''] \<mapsto> Dir,
                  [''app'', ''src'', ''components''] \<mapsto> Dir,
                  [''app'', ''src'', ''pages''] \<mapsto> Dir,
                  [''app'', ''src'', ''styles''] \<mapsto> Dir,
                  [''app'', ''dist''] \<mapsto> Dir,
                  [''app'', ''src'', ''components'', ''UiShell.tsx''] \<mapsto> File uiShell,
                  [''app'', ''src'', ''pages'', ''index.tsx''] \<mapsto> File pageContent,
                  [''app'', ''src'', ''styles'', ''index.css''] \<mapsto> File styles],
               logs = []\<rparr>
    = (None, \<lparr>files = [[] \<mapsto> Dir, [''app''] \<mapsto> Dir,
                  [''app'', ''src''] \<mapsto> Dir,
                  [''app'', ''src'', ''components''] \<mapsto> Dir,
                  [''app'', ''src'', ''pages''] \<mapsto> Dir,
                  [''app'', ''src'', ''styles''] \<mapsto> Dir,
                  [''app'', ''dist''] \<mapsto> Dir,
                  [''app'', ''src'', ''components'', ''UiShell.tsx''] \<mapsto> File uiShell,
                  [''app'', ''src'', ''pages'', ''index.tsx''] \<mapsto> File pageContent,
                  [''app'', ''src'', ''styles'', ''index.css''] \<mapsto> File styles],
               logs = []\<rparr>)"
proof -
  have r: "emit (\<lambda>s. None) (\<lambda>d. ''{}'') [''app''] SrcStructure
      \<lparr>files = [[] \<mapsto> Dir, [''app''] \<mapsto> Dir], logs = []\<rparr>
    = (None, \<lparr>files = [[] \<mapsto> Dir, [''app''] \<mapsto> Dir,
                  [''app'', ''src''] \<mapsto> Dir,
                  [''app'', ''src'', ''components''] \<mapsto> Dir,
                  [''app'', ''src'', ''pages''] \<mapsto> Dir,
                  [''app'', ''src'', ''styles''] \<mapsto> Dir,
                  [''app'', ''dist''] \<mapsto> Dir,
                  [''app'', ''src'', ''components'', ''UiShell.tsx''] \<mapsto> File uiShell,
                  [''app'', ''src'', ''pages'', ''index.tsx''] \<mapsto> File pageContent,
                  [''app'', ''src'', ''styles'', ''index.css''] \<mapsto> File styles],
               logs = []\<rparr>)"
    by (simp add: createUniversalSrcStructure_def ensureDir_def writeFile_def)
  have n: "SrcStructure \<noteq> PackageJson" by simp
  from n r static_emitters_idempotent[OF n r] show ?thesis by simp
qed

section \<open>A full run on an empty target root\<close>

lemma prefix_snoc2:
  "prefix q (xs @ [a, b]) \<longleftrightarrow> q = xs @ [a, b] \<or> q = xs @ [a] \<or> prefix q xs"
proof -
  have "prefix q ((xs @ [a]) @ [b]) \<longleftrightarrow> q = (xs @ [a]) @ [b] \<or> prefix q (xs @ [a])"
    by (rule prefix_snoc)
  then show ?thesis by (auto simp: prefix_snoc)
qed

lemma strict_prefix_below: "strict_prefix xs (xs @ y # ys)"
  by (simp add: strict_prefix_def)

lemma mkdirs_succeeds:
  "(\<And>q x. q \<in> set qs \<Longrightarrow> fs q \<noteq> Some (File x)) \<Longrightarrow> \<exists>fs'. mkdirs qs fs = Inr fs'"
proof (induction qs arbitrary: fs)
  case Nil
  show ?case by simp
next
  case (Cons q qs)
  show ?case
  proof (cases "fs q")
    case None
    have "\<exists>fs'. mkdirs qs (fs(q \<mapsto> Dir)) = Inr fs'"
      by (rule Cons.IH) (simp add: Cons.prems)
    with None show ?thesis by simp
  next
    case (Some n)
    have "\<exists>fs'. mkdirs qs fs = Inr fs'"
      by (rule Cons.IH) (simp add: Cons.prems)
    moreover have "fs q \<noteq> Some (File x)" for x
      by (rule Cons.prems) simp
    then have "n = Dir"
      using Some by (cases n) auto
    ultimately show ?thesis using Some by simp
  qed
qed

lemma ensureDir_eq:
  assumes "\<And>q x. prefix q d \<Longrightarrow> files w q \<noteq> Some (File x)"
  shows "ensureDir d w =
    (None, w\<lparr>files := (\<lambda>q. if prefix q d \<and> files w q = None then Some Dir else files w q)\<rparr>)"
proof -
  have "\<exists>fs'. mkdirs (prefixes d) (files w) = Inr fs'"
    by (rule mkdirs_succeeds) (simp add: assms)
  then obtain fs' where "mkdirs (prefixes d) (files w) = Inr fs'" ..
  then have e: "ensureDir d w = (None, w\<lparr>files := fs'\<rparr>)"
    by (simp add: ensureDir_def)
  from ensureDir_ok(1)[OF e] e show ?thesis by simp
qed

lemma writeFile_eq:
  assumes "files w f \<noteq> Some Dir" and "files w (butlast f) = Some Dir"
  shows "writeFile f c w = (None, w\<lparr>files := (files w)(f \<mapsto> File c)\<rparr>)"
  using assms by (simp add: writeFile_def split: option.splits node.splits)

lemma distinct_allArtifacts: "distinct (map fst (allArtifacts stringify rootDir))"
  by (simp add: allArtifacts_def)

lemma allArtifacts_below:
  "(p, n) \<in> set (allArtifacts stringify rootDir) \<Longrightarrow> strict_prefix rootDir p"
  by (auto simp: allArtifacts_def strict_prefix_below)

lemma artifacts_in_all:
  "(p, n) \<in> set (artifacts stringify rootDir e) \<Longrightarrow>
   (p, n) \<in> set (allArtifacts stringify rootDir)"
  by (cases e) (auto simp: allArtifacts_def)

lemma all_in_artifacts:
  "(p, n) \<in> set (allArtifacts stringify rootDir) \<Longrightarrow>
   \<exists>e. (p, n) \<in> set (artifacts stringify rootDir e)"
  unfolding allArtifacts_def by (simp only: set_concat set_map) blast

lemma final_artifact:
  assumes "(p, n) \<in> set (allArtifacts stringify rootDir)"
  shows "(fs ++ map_of (allArtifacts stringify rootDir)) p = Some n"
proof -
  have "map_of (allArtifacts stringify rootDir) p = Some n"
    using distinct_allArtifacts assms by (rule map_of_is_SomeI)
  then show ?thesis by (simp add: map_add_def)
qed

lemma final_other:
  assumes "\<not> strict_prefix rootDir p"
  shows "(fs ++ map_of (allArtifacts stringify rootDir)) p = fs p"
proof -
  have "p \<notin> fst ` set (allArtifacts stringify rootDir)"
    using assms allArtifacts_below by fastforce
  then have "map_of (allArtifacts stringify rootDir) p = None"
    by (simp add: map_of_eq_None_iff)
  then show ?thesis by (simp add: map_add_def)
qed

lemma toward_root:
  assumes h1: "\<And>q. prefix q rootDir \<Longrightarrow> files w0 q = Some Dir"
    and t: "toward w0 (files w0 ++ map_of (allArtifacts stringify rootDir)) w"
    and q: "prefix q rootDir"
  shows "files w q = Some Dir"
proof -
  have "\<not> strict_prefix rootDir q"
    using q by (auto simp: strict_prefix_def)
  then have "(files w0 ++ map_of (allArtifacts stringify rootDir)) q = files w0 q"
    by (rule final_other)
  moreover have "files w q = files w0 q \<or>
      files w q = (files w0 ++ map_of (allArtifacts stringify rootDir)) q"
    using t by (simp add: toward_def)
  ultimately show ?thesis using h1[OF q] by auto
qed

lemma toward_artifact:
  assumes h2: "\<And>q. strict_prefix rootDir q \<Longrightarrow> files w0 q = None"
    and t: "toward w0 (files w0 ++ map_of (allArtifacts stringify rootDir)) w"
    and a: "(p, n) \<in> set (allArtifacts stringify rootDir)"
  shows "files w p = None \<or> files w p = Some n"
proof -
  have "files w0 p = None"
    by (rule h2) (rule allArtifacts_below[OF a])
  moreover have "(files w0 ++ map_of (allArtifacts stringify rootDir)) p = Some n"
    by (rule final_artifact[OF a])
  moreover have "files w p = files w0 p \<or>
      files w p = (files w0 ++ map_of (allArtifacts stringify rootDir)) p"
    using t by (simp add: toward_def)
  ultimately show ?thesis by auto
qed

lemma single_write:
  assumes h1: "\<And>q. prefix q rootDir \<Longrightarrow> files w0 q = Some Dir"
    and h2: "\<And>q. strict_prefix rootDir q \<Longrightarrow> files w0 q = None"
    and t: "toward w0 (files w0 ++ map_of (allArtifacts stringify rootDir)) w"
    and a: "(rootDir @ [name], File c) \<in> set (allArtifacts stringify rootDir)"
  shows "writeFile (rootDir @ [name]) c w =
           (None, w\<lparr>files := (files w)(rootDir @ [name] \<mapsto> File c)\<rparr>)"
proof (rule writeFile_eq)
  show "files w (rootDir @ [name]) \<noteq> Some Dir"
    using toward_artifact[OF h2 t a] by auto
  show "files w (butlast (rootDir @ [name])) = Some Dir"
    using toward_root[OF h1 t, of rootDir] by simp
qed

lemma ensureDir_fill:
  assumes fs: "files w = fs"
    and nd: "\<And>q. prefix q d \<Longrightarrow> fs q = None \<or> fs q = Some Dir"
  shows "ensureDir d w =
    (None, w\<lparr>files := (\<lambda>q. if prefix q d then Some Dir else fs q)\<rparr>)"
proof -
  have "ensureDir d w =
    (None, w\<lparr>files := (\<lambda>q. if prefix q d \<and> files w q = None then Some Dir else files w q)\<rparr>)"
  proof (rule ensureDir_eq)
    fix q x
    assume "prefix q d"
    from nd[OF this] show "files w q \<noteq> Some (File x)" by (auto simp: fs)
  qed
  moreover have "(\<lambda>q. if prefix q d \<and> files w q = None then Some Dir else files w q) =
      (\<lambda>q. if prefix q d then Some Dir else fs q)"
  proof
    fix q
    show "(if prefix q d \<and> files w q = None then Some Dir else files w q) =
      (if prefix q d then Some Dir else fs q)"
      using nd[of q] by (auto simp: fs)
  qed
  ultimately show ?thesis by simp
qed

lemma writeFile_put:
  assumes "files w = fs" and "fs f \<noteq> Some Dir" and "fs (butlast f) = Some Dir"
  shows "writeFile f c w = (None, w\<lparr>files := fs(f \<mapsto> File c)\<rparr>)"
  using writeFile_eq[of w f c] assms by simp

lemma src_prefix_cases:
  assumes "prefix q (rootDir @ [''src'', ''components'']) \<or> prefix q (rootDir @ [''src'', ''pages''])
      \<or> prefix q (rootDir @ [''src'', ''styles'']) \<or> prefix q (rootDir @ [''dist''])"
  shows "prefix q rootDir \<or> q = rootDir @ [''src''] \<or> q = rootDir @ [''src'', ''components'']
      \<or> q = rootDir @ [''src'', ''pages''] \<or> q = rootDir @ [''src'', ''styles'']
      \<or> q = rootDir @ [''dist'']"
  using assms unfolding prefix_snoc2 prefix_snoc by blast

lemma srcStructure_run:
  assumes h1: "\<And>q. prefix q rootDir \<Longrightarrow> files w0 q = Some Dir"
    and h2: "\<And>q. strict_prefix rootDir q \<Longrightarrow> files w0 q = None"
    and t: "toward w0 (files w0 ++ map_of (allArtifacts stringify rootDir)) w"
  shows "createUniversalSrcStructure rootDir w =
    (None, w\<lparr>files :=
       (\<lambda>q. if prefix q (rootDir @ [''src'', ''components''])
                \<or> prefix q (rootDir @ [''src'', ''pages''])
                \<or> prefix q (rootDir @ [''src'', ''styles''])
                \<or> prefix q (rootDir @ [''dist''])
             then Some Dir else files w q)
       (rootDir @ [''src'', ''components'', ''UiShell.tsx''] \<mapsto> File uiShell,
        rootDir @ [''src'', ''pages'', ''index.tsx''] \<mapsto> File pageContent,
        rootDir @ [''src'', ''styles'', ''index.css''] \<mapsto> File styles)\<rparr>)"
proof -
  let ?d1 = "rootDir @ [''src'', ''components'']"
  let ?d2 = "rootDir @ [''src'', ''pages'']"
  let ?d3 = "rootDir @ [''src'', ''styles'']"
  let ?d4 = "rootDir @ [''dist'']"
  let ?f1 = "rootDir @ [''src'', ''components'', ''UiShell.tsx'']"
  let ?f2 = "rootDir @ [''src'', ''pages'', ''index.tsx'']"
  let ?f3 = "rootDir @ [''src'', ''styles'', ''index.css'']"
  have own: "files w p = None \<or> files w p = Some n"
    if "(p, n) \<in> set (artifacts stringify rootDir SrcStructure)" for p n
    by (rule toward_artifact[OF h2 t artifacts_in_all[OF that]])
  have up: "files w q = Some Dir" if "prefix q rootDir" for q
    by (rule toward_root[of rootDir w0 stringify w q, OF h1 t that])
  have nd: "files w q = None \<or> files w q = Some Dir"
    if "prefix q ?d1 \<or> prefix q ?d2 \<or> prefix q ?d3 \<or> prefix q ?d4" for q
  proof -
    from src_prefix_cases[OF that] consider "prefix q rootDir"
      | "(q, Dir) \<in> set (artifacts stringify rootDir SrcStructure)"
      by auto
    then show ?thesis
    proof cases
      case 1
      then show ?thesis by (simp add: up)
    next
      case 2
      then show ?thesis by (rule own)
    qed
  qed
  define G1 where "G1 = (\<lambda>q. if prefix q ?d1 then Some Dir else files w q)"
  define G2 where "G2 = (\<lambda>q. if prefix q ?d2 then Some Dir else G1 q)"
  define G3 where "G3 = (\<lambda>q. if prefix q ?d3 then Some Dir else G2 q)"
  define G4 where "G4 = (\<lambda>q. if prefix q ?d4 then Some Dir else G3 q)"
  have n1: "G1 q = None \<or> G1 q = Some Dir"
    if "prefix q ?d1 \<or> prefix q ?d2 \<or> prefix q ?d3 \<or> prefix q ?d4" for q
    using nd[OF that] by (simp add: G1_def)
  have n2: "G2 q = None \<or> G2 q = Some Dir"
    if "prefix q ?d1 \<or> prefix q ?d2 \<or> prefix q ?d3 \<or> prefix q ?d4" for q
    using n1[OF that] by (simp add: G2_def)
  have n3: "G3 q = None \<or> G3 q = Some Dir"
    if "prefix q ?d1 \<or> prefix q ?d2 \<or> prefix q ?d3 \<or> prefix q ?d4" for q
    using n2[OF that] by (simp add: G3_def)
  have "ensureDir ?d1 w =
      (None, w\<lparr>files := (\<lambda>q. if prefix q ?d1 then Some Dir else files w q)\<rparr>)"
    by (rule ensureDir_fill) (simp_all add: nd)
  then have e1: "ensureDir ?d1 w = (None, w\<lparr>files := G1\<rparr>)"
    by (simp add: G1_def)
  have "ensureDir ?d2 (w\<lparr>files := G1\<rparr>) =
      (None, (w\<lparr>files := G1\<rparr>)\<lparr>files := (\<lambda>q. if prefix q ?d2 then Some Dir else G1 q)\<rparr>)"
    by (rule ensureDir_fill) (simp_all add: n1)
  then have e2: "ensureDir ?d2 (w\<lparr>files := G1\<rparr>) = (None, w\<lparr>files := G2\<rparr>)"
    by (simp add: G2_def)
  have "ensureDir ?d3 (w\<lparr>files := G2\<rparr>) =
      (None, (w\<lparr>files := G2\<rparr>)\<lparr>files := (\<lambda>q. if prefix q ?d3 then Some Dir else G2 q)\<rparr>)"
    by (rule ensureDir_fill) (simp_all add: n2)
  then have e3: "ensureDir ?d3 (w\<lparr>files := G2\<rparr>) = (None, w\<lparr>files := G3\<rparr>)"
    by (simp add: G3_def)
  have "ensureDir ?d4 (w\<lparr>files := G3\<rparr>) =
      (None, (w\<lparr>files := G3\<rparr>)\<lparr>files := (\<lambda>q. if prefix q ?d4 then Some Dir else G3 q)\<rparr>)"
    by (rule ensureDir_fill) (simp_all add: n3)
  then have e4: "ensureDir ?d4 (w\<lparr>files := G3\<rparr>) = (None, w\<lparr>files := G4\<rparr>)"
    by (simp add: G4_def)
  have G4: "G4 = (\<lambda>q. if prefix q ?d1 \<or> prefix q ?d2 \<or> prefix q ?d3 \<or> prefix q ?d4
                     then Some Dir else files w q)"
    by (rule ext) (simp add: G4_def G3_def G2_def G1_def)
  have g1: "G4 ?f1 = files w ?f1" "G4 ?f2 = files w ?f2" "G4 ?f3 = files w ?f3"
    by (simp_all add: G4)
  have g2: "G4 ?d1 = Some Dir" "G4 ?d2 = Some Dir" "G4 ?d3 = Some Dir"
    by (simp_all add: G4)
  have o1: "files w ?f1 \<noteq> Some Dir"
    using own[of ?f1 "File uiShell"] by auto
  have o2: "files w ?f2 \<noteq> Some Dir"
    using own[of ?f2 "File pageContent"] by auto
  have o3: "files w ?f3 \<noteq> Some Dir"
    using own[of ?f3 "File styles"] by auto
  have "writeFile ?f1 uiShell (w\<lparr>files := G4\<rparr>) =
      (None, (w\<lparr>files := G4\<rparr>)\<lparr>files := G4(?f1 \<mapsto> File uiShell)\<rparr>)"
    by (rule writeFile_put) (simp_all add: g1 g2 o1 butlast_append)
  then have x1: "writeFile ?f1 uiShell (w\<lparr>files := G4\<rparr>) =
      (None, w\<lparr>files := G4(?f1 \<mapsto> File uiShell)\<rparr>)"
    by simp
  have "writeFile ?f2 pageContent (w\<lparr>files := G4(?f1 \<mapsto> File uiShell)\<rparr>) =
      (None, (w\<lparr>files := G4(?f1 \<mapsto> File uiShell)\<rparr>)\<lparr>files :=
         G4(?f1 \<mapsto> File uiShell, ?f2 \<mapsto> File pageContent)\<rparr>)"
    by (rule writeFile_put) (simp_all add: g1 g2 o2 butlast_append)
  then have x2: "writeFile ?f2 pageContent (w\<lparr>files := G4(?f1 \<mapsto> File uiShell)\<rparr>) =
      (None, w\<lparr>files := G4(?f1 \<mapsto> File uiShell, ?f2 \<mapsto> File pageContent)\<rparr>)"
    by simp
  have "writeFile ?f3 styles
        (w\<lparr>files := G4(?f1 \<mapsto> File uiShell, ?f2 \<mapsto> File pageContent)\<rparr>) =
      (None, (w\<lparr>files := G4(?f1 \<mapsto> File uiShell, ?f2 \<mapsto> File pageContent)\<rparr>)\<lparr>files :=
         G4(?f1 \<mapsto> File uiShell, ?f2 \<mapsto> File pageContent, ?f3 \<mapsto> File styles)\<rparr>)"
    by (rule writeFile_put) (simp_all add: g1 g2 o3 butlast_append)
  then have x3: "writeFile ?f3 styles
        (w\<lparr>files := G4(?f1 \<mapsto> File uiShell, ?f2 \<mapsto> File pageContent)\<rparr>) =
      (None, w\<lparr>files := G4(?f1 \<mapsto> File uiShell, ?f2 \<mapsto> File pageContent,
                             ?f3 \<mapsto> File styles)\<rparr>)"
    by simp
  have "createUniversalSrcStructure rootDir w =
      (None, w\<lparr>files := G4(?f1 \<mapsto> File uiShell, ?f2 \<mapsto> File pageContent,
                             ?f3 \<mapsto> File styles)\<rparr>)"
    by (simp add: createUniversalSrcStructure_def e1 e2 e3 e4 x1 x2 x3)
  then show ?thesis unfolding G4 .
qed

lemma emit_step:
  assumes h1: "\<And>q. prefix q rootDir \<Longrightarrow> files w0 q = Some Dir"
    and h2: "\<And>q. strict_prefix rootDir q \<Longrightarrow> files w0 q = None"
    and t: "toward w0 (files w0 ++ map_of (allArtifacts stringify rootDir)) w"
    and pk: "e = PackageJson \<Longrightarrow> files w (rootDir @ [''package.json'']) = None"
  shows "\<exists>w'. emit parse stringify rootDir e w = (None, w') \<and> logs w' = logs w \<and>
      (\<forall>(p, n) \<in> set (artifacts stringify rootDir e). files w' p = Some n) \<and>
      (\<forall>q. q \<notin> fst ` set (artifacts stringify rootDir e) \<longrightarrow> files w' q = files w q)"
proof -
  have one: "\<exists>w'. writeFile (rootDir @ [name]) c w = (None, w') \<and> logs w' = logs w \<and>
      (\<forall>(p, n) \<in> set [(rootDir @ [name], File c)]. files w' p = Some n) \<and>
      (\<forall>q. q \<notin> fst ` set [(rootDir @ [name], File c)] \<longrightarrow> files w' q = files w q)"
    if "(rootDir @ [name], File c) \<in> set (allArtifacts stringify rootDir)" for name c
    using single_write[of rootDir w0 stringify w name c, OF h1 h2 t that] by simp
  show ?thesis
  proof (cases e)
    case PackageJson
    have "createUniversalPackageJson parse stringify rootDir w =
        writeFile (rootDir @ [''package.json'']) (stringify default_manifest) w"
      by (rule createUniversalPackageJson_eq[OF readExisting_absent[OF pk[OF PackageJson]]
            starterPkg_empty])
    then show ?thesis
      using one[of "''package.json''" "stringify default_manifest"]
      by (simp add: PackageJson allArtifacts_def)
  next
    case Tsconfig
    show ?thesis
      using one[of "''tsconfig.json''" "stringify tsconfig"]
      by (simp add: Tsconfig allArtifacts_def createUniversalTsconfig_def writeJSON_def)
  next
    case TailwindConfig
    show ?thesis
      using one[of "''tailwind.config.js''" config]
      by (simp add: TailwindConfig allArtifacts_def createUniversalTailwindConfig_def)
  next
    case PostCSSConfig
    show ?thesis
      using one[of "''postcss.config.js''" postcssContents]
      by (simp add: PostCSSConfig allArtifacts_def createUniversalPostCSSConfig_def)
  next
    case EslintConfig
    show ?thesis
      using one[of "''.eslintrc.json''" "stringify eslintConfig"]
      by (simp add: EslintConfig allArtifacts_def createUniversalEslintConfig_def writeJSON_def)
  next
    case IgnixConfig
    show ?thesis
      using one[of "''ignix.config.js''" ignixConfig]
      by (simp add: IgnixConfig allArtifacts_def createUniversalIgnixConfig_def)
  next
    case SrcStructure
    have up: "files w q = Some Dir" if "prefix q rootDir" for q
      by (rule toward_root[of rootDir w0 stringify w q, OF h1 t that])
    have fr: "files w q = Some Dir"
      if "prefix q (rootDir @ [''src'', ''components'']) \<or> prefix q (rootDir @ [''src'', ''pages''])
          \<or> prefix q (rootDir @ [''src'', ''styles'']) \<or> prefix q (rootDir @ [''dist''])"
        and "q \<notin> fst ` set (artifacts stringify rootDir SrcStructure)" for q
    proof -
      from src_prefix_cases[OF that(1)] that(2) have "prefix q rootDir" by auto
      then show ?thesis by (rule up)
    qed
    let ?w' = "w\<lparr>files :=
       (\<lambda>q. if prefix q (rootDir @ [''src'', ''components''])
                \<or> prefix q (rootDir @ [''src'', ''pages''])
                \<or> prefix q (rootDir @ [''src'', ''styles''])
                \<or> prefix q (rootDir @ [''dist''])
             then Some Dir else files w q)
       (rootDir @ [''src'', ''components'', ''UiShell.tsx''] \<mapsto> File uiShell,
        rootDir @ [''src'', ''pages'', ''index.tsx''] \<mapsto> File pageContent,
        rootDir @ [''src'', ''styles'', ''index.css''] \<mapsto> File styles)\<rparr>"
    have a: "emit parse stringify rootDir e w = (None, ?w')"
      using srcStructure_run[of rootDir w0 stringify w, OF h1 h2 t] by (simp add: SrcStructure)
    have b: "logs ?w' = logs w" by simp
    have c: "\<forall>(p, n) \<in> set (artifacts stringify rootDir e). files ?w' p = Some n"
      by (simp add: SrcStructure)
    have d: "\<forall>q. q \<notin> fst ` set (artifacts stringify rootDir e) \<longrightarrow> files ?w' q = files w q"
    proof (intro allI impI)
      fix q
      assume q: "q \<notin> fst ` set (artifacts stringify rootDir e)"
      show "files ?w' q = files w q"
      proof (cases "prefix q (rootDir @ [''src'', ''components''])
          \<or> prefix q (rootDir @ [''src'', ''pages''])
          \<or> prefix q (rootDir @ [''src'', ''styles'']) \<or> prefix q (rootDir @ [''dist''])")
        case True
        have "files w q = Some Dir"
          using True q unfolding SrcStructure by (rule fr)
        then show ?thesis using True q by (simp add: SrcStructure)
      next
        case False
        then show ?thesis using q by (simp add: SrcStructure)
      qed
    qed
    show ?thesis
      by (rule exI[of _ ?w']) (intro conjI a b c d)
  next
    case Gitignore
    show ?thesis
      using one[of "''.gitignore''" gitignoreContents]
      by (simp add: Gitignore allArtifacts_def createUniversalGitignore_def)
  next
    case Readme
    show ?thesis
      using one[of "''README.md''" readme]
      by (simp add: Readme allArtifacts_def createUniversalReadme_def)
  qed
qed

lemma pkg_not_artifact:
  "e \<noteq> PackageJson \<Longrightarrow>
   rootDir @ [''package.json''] \<notin> fst ` set (artifacts stringify rootDir e)"
  by (cases e) simp_all

lemma toward_step:
  assumes t: "toward w0 (files w0 ++ map_of (allArtifacts stringify rootDir)) w"
    and l: "logs w' = logs w"
    and a: "\<forall>(p, n) \<in> set (artifacts stringify rootDir e). files w' p = Some n"
    and f: "\<forall>q. q \<notin> fst ` set (artifacts stringify rootDir e) \<longrightarrow> files w' q = files w q"
  shows "toward w0 (files w0 ++ map_of (allArtifacts stringify rootDir)) w'"
    and "\<forall>q. files w q = (files w0 ++ map_of (allArtifacts stringify rootDir)) q \<longrightarrow>
             files w' q = (files w0 ++ map_of (allArtifacts stringify rootDir)) q"
proof -
  let ?F = "files w0 ++ map_of (allArtifacts stringify rootDir)"
  have own: "files w' q = ?F q" if "q \<in> fst ` set (artifacts stringify rootDir e)" for q
  proof -
    from that obtain n where n: "(q, n) \<in> set (artifacts stringify rootDir e)" by auto
    then have "files w' q = Some n" using a by auto
    moreover have "?F q = Some n"
      by (rule final_artifact[OF artifacts_in_all[OF n]])
    ultimately show ?thesis by simp
  qed
  have other: "files w' q = files w q" if "q \<notin> fst ` set (artifacts stringify rootDir e)" for q
    using that f by simp
  have w: "files w q = files w0 q \<or> files w q = ?F q" for q
    using t by (simp add: toward_def)
  have "files w' q = files w0 q \<or> files w' q = ?F q" for q
    using own[of q] other[of q] w[of q] by (cases "q \<in> fst ` set (artifacts stringify rootDir e)") auto
  moreover have "logs w' = logs w0" using t l by (simp add: toward_def)
  ultimately show "toward w0 ?F w'" by (simp add: toward_def)
  show "\<forall>q. files w q = ?F q \<longrightarrow> files w' q = ?F q"
  proof (intro allI impI)
    fix q assume "files w q = ?F q"
    then show "files w' q = ?F q"
      using own[of q] other[of q] by (cases "q \<in> fst ` set (artifacts stringify rootDir e)") auto
  qed
qed

lemma run_order:
  assumes h1: "\<And>q. prefix q rootDir \<Longrightarrow> files w0 q = Some Dir"
    and h2: "\<And>q. strict_prefix rootDir q \<Longrightarrow> files w0 q = None"
    and d: "distinct ops"
    and t: "toward w0 (files w0 ++ map_of (allArtifacts stringify rootDir)) w"
    and pk: "PackageJson \<in> set ops \<Longrightarrow> files w (rootDir @ [''package.json'']) = None"
  shows "\<exists>w'. sequence (map (emit parse stringify rootDir) ops) w = (None, w') \<and>
      toward w0 (files w0 ++ map_of (allArtifacts stringify rootDir)) w' \<and>
      (\<forall>q. files w q = (files w0 ++ map_of (allArtifacts stringify rootDir)) q \<longrightarrow>
             files w' q = (files w0 ++ map_of (allArtifacts stringify rootDir)) q) \<and>
      (\<forall>e \<in> set ops. \<forall>(p, n) \<in> set (artifacts stringify rootDir e). files w' p = Some n)"
  using d t pk
proof (induction ops arbitrary: w)
  case Nil
  then show ?case by simp
next
  case (Cons e ops)
  let ?F = "files w0 ++ map_of (allArtifacts stringify rootDir)"
  have "e = PackageJson \<Longrightarrow> files w (rootDir @ [''package.json'']) = None"
    using Cons.prems(3) by simp
  from emit_step[of rootDir w0 stringify w e parse, OF h1 h2 Cons.prems(2) this]
  obtain w1 where
    r: "emit parse stringify rootDir e w = (None, w1)" and
    l: "logs w1 = logs w" and
    a: "\<forall>(p, n) \<in> set (artifacts stringify rootDir e). files w1 p = Some n" and
    f: "\<forall>q. q \<notin> fst ` set (artifacts stringify rootDir e) \<longrightarrow> files w1 q = files w q"
    by blast
  note s = toward_step[OF Cons.prems(2) l a f]
  have pk1: "files w1 (rootDir @ [''package.json'']) = None" if "PackageJson \<in> set ops"
  proof -
    from that Cons.prems(1) have "e \<noteq> PackageJson" by auto
    then have "files w1 (rootDir @ [''package.json'']) = files w (rootDir @ [''package.json''])"
      using f pkg_not_artifact by blast
    then show ?thesis using Cons.prems(3) that by simp
  qed
  from Cons.prems(1) have "distinct ops" by simp
  from Cons.IH[OF this s(1) pk1]
  obtain w' where
    r': "sequence (map (emit parse stringify rootDir) ops) w1 = (None, w')" and
    t': "toward w0 ?F w'" and
    m': "\<forall>q. files w1 q = ?F q \<longrightarrow> files w' q = ?F q" and
    a': "\<forall>e \<in> set ops. \<forall>(p, n) \<in> set (artifacts stringify rootDir e). files w' p = Some n"
    by blast
  have "sequence (map (emit parse stringify rootDir) (e # ops)) w = (None, w')"
    using r r' by simp
  moreover have "\<forall>q. files w q = ?F q \<longrightarrow> files w' q = ?F q"
    using s(2) m' by blast
  moreover have "\<forall>(p, n) \<in> set (artifacts stringify rootDir e). files w' p = Some n"
  proof (intro ballI, clarify)
    fix p n assume pn: "(p, n) \<in> set (artifacts stringify rootDir e)"
    then have "files w1 p = Some n" using a by auto
    moreover have "?F p = Some n"
      by (rule final_artifact[OF artifacts_in_all[OF pn]])
    ultimately show "files w' p = Some n" using m' by simp
  qed
  ultimately show ?case using t' a' by auto
qed

lemma full_run:
  assumes h1: "\<And>q. prefix q rootDir \<Longrightarrow> files w q = Some Dir"
    and h2: "\<And>q. strict_prefix rootDir q \<Longrightarrow> files w q = None"
    and d: "distinct ops" and u: "set ops = UNIV"
  shows "sequence (map (emit parse stringify rootDir) ops) w =
     (None, w\<lparr>files := files w ++ map_of (allArtifacts stringify rootDir)\<rparr>)"
proof -
  let ?F = "files w ++ map_of (allArtifacts stringify rootDir)"
  have t: "toward w ?F w" by (simp add: toward_def)
  have pk: "files w (rootDir @ [''package.json'']) = None"
    by (rule h2) (rule strict_prefix_below)
  from run_order[of rootDir w ops stringify w parse, OF h1 h2 d t pk]
  obtain w' where
    r: "sequence (map (emit parse stringify rootDir) ops) w = (None, w')" and
    t': "toward w ?F w'" and
    a: "\<forall>e \<in> set ops. \<forall>(p, n) \<in> set (artifacts stringify rootDir e). files w' p = Some n"
    by blast
  have "files w' q = ?F q" for q
  proof (cases "map_of (allArtifacts stringify rootDir) q")
    case None
    then have "?F q = files w q" by (simp add: map_add_def)
    then show ?thesis using t' by (auto simp: toward_def)
  next
    case (Some n)
    then have "(q, n) \<in> set (allArtifacts stringify rootDir)" by (rule map_of_SomeD)
    then obtain e where "(q, n) \<in> set (artifacts stringify rootDir e)"
      using all_in_artifacts by blast
    then have "files w' q = Some n" using a u by auto
    then show ?thesis using Some by (simp add: map_add_def)
  qed
  then have "files w' = ?F" by (rule ext)
  moreover have "logs w' = logs w" using t' by (simp add: toward_def)
  ultimately have "w' = w\<lparr>files := ?F\<rparr>" by simp
  with r show ?thesis by simp
qed

lemma sample_root:
  "prefix q [''app''] \<Longrightarrow>
     files \<lparr>files = [[] \<mapsto> Dir, [''app''] \<mapsto> Dir], logs = []\<rparr> q = Some Dir"
  "strict_prefix [''app''] q \<Longrightarrow>
     files \<lparr>files = [[] \<mapsto> Dir, [''app''] \<mapsto> Dir], logs = []\<rparr> q = None"
  by (auto simp: prefix_Cons strict_prefix_def)

lemma all_emitters:
  "distinct [PackageJson, Tsconfig, TailwindConfig, PostCSSConfig, EslintConfig, IgnixConfig,
     SrcStructure, Gitignore, Readme]"
  "set [PackageJson, Tsconfig, TailwindConfig, PostCSSConfig, EslintConfig, IgnixConfig,
     SrcStructure, Gitignore, Readme] = UNIV"
proof -
  show "distinct [PackageJson, Tsconfig, TailwindConfig, PostCSSConfig, EslintConfig, IgnixConfig,
     SrcStructure, Gitignore, Readme]"
    by simp
  have "e \<in> set [PackageJson, Tsconfig, TailwindConfig, PostCSSConfig, EslintConfig, IgnixConfig,
     SrcStructure, Gitignore, Readme]" for e
    by (cases e) simp_all
  then show "set [PackageJson, Tsconfig, TailwindConfig, PostCSSConfig, EslintConfig, IgnixConfig,
     SrcStructure, Gitignore, Readme] = UNIV"
    by blast
qed

text \<open>
  Claim C9, as the code has it. Let the target root and the directories above it
  exist and nothing exist below it. Running each of the nine operations once, in any
  order, succeeds and adds exactly the entries of \<open>allArtifacts\<close>: the eleven files,
  each with its fixed content, and five directories, namely \<^verbatim>\<open>src\<close>, \<^verbatim>\<open>src/components\<close>,
  \<^verbatim>\<open>src/pages\<close>, \<^verbatim>\<open>src/styles\<close> and \<^verbatim>\<open>dist\<close>. Every other path and the log are as they
  were.
\<close>

theorem full_run_artifacts:
  assumes "\<forall>q. prefix q rootDir \<longrightarrow> files w q = Some Dir"
    and "\<forall>q. strict_prefix rootDir q \<longrightarrow> files w q = None"
    and "distinct ops" and "set ops = UNIV"
  shows "sequence (map (emit parse stringify rootDir) ops) w =
           (None, w\<lparr>files := files w ++ map_of (allArtifacts stringify rootDir)\<rparr>) \<and>
         map fst (filter (\<lambda>(p, n). n = Dir) (allArtifacts stringify rootDir)) =
           map ((@) rootDir)
             [[''src''], [''src'', ''components''], [''src'', ''pages''], [''src'', ''styles''],
              [''dist'']] \<and>
         map fst (filter (\<lambda>(p, n). n \<noteq> Dir) (allArtifacts stringify rootDir)) =
           map ((@) rootDir)
             [[''package.json''], [''tsconfig.json''], [''tailwind.config.js''],
              [''postcss.config.js''], [''.eslintrc.json''], [''ignix.config.js''],
              [''src'', ''components'', ''UiShell.tsx''], [''src'', ''pages'', ''index.tsx''],
              [''src'', ''styles'', ''index.css''], [''.gitignore''], [''README.md'']] \<and>
         (\<forall>q. strict_prefix rootDir q \<longrightarrow>
            ((files w ++ map_of (allArtifacts stringify rootDir)) q \<noteq> None \<longleftrightarrow>
             q \<in> fst ` set (allArtifacts stringify rootDir)))"
proof (intro conjI allI impI)
  show "sequence (map (emit parse stringify rootDir) ops) w =
           (None, w\<lparr>files := files w ++ map_of (allArtifacts stringify rootDir)\<rparr>)"
    using assms by (intro full_run) simp_all
  show "map fst (filter (\<lambda>(p, n). n = Dir) (allArtifacts stringify rootDir)) =
           map ((@) rootDir)
             [[''src''], [''src'', ''components''], [''src'', ''pages''], [''src'', ''styles''],
              [''dist'']]"
    by (simp add: allArtifacts_def)
  show "map fst (filter (\<lambda>(p, n). n \<noteq> Dir) (allArtifacts stringify rootDir)) =
           map ((@) rootDir)
             [[''package.json''], [''tsconfig.json''], [''tailwind.config.js''],
              [''postcss.config.js''], [''.eslintrc.json''], [''ignix.config.js''],
              [''src'', ''components'', ''UiShell.tsx''], [''src'', ''pages'', ''index.tsx''],
              [''src'', ''styles'', ''index.css''], [''.gitignore''], [''README.md'']]"
    by (simp add: allArtifacts_def)
next
  fix q
  assume "strict_prefix rootDir q"
  then have "files w q = None" using assms(2) by simp
  then have "(files w ++ map_of (allArtifacts stringify rootDir)) q =
      map_of (allArtifacts stringify rootDir) q"
    by (simp add: map_add_def split: option.splits)
  then show "(files w ++ map_of (allArtifacts stringify rootDir)) q \<noteq> None \<longleftrightarrow>
      q \<in> fst ` set (allArtifacts stringify rootDir)"
    by (simp add: map_of_eq_None_iff)
qed

theorem full_run_artifacts_witness:
  "sequence (map (emit (\<lambda>s. None) (\<lambda>d. ''{}'') [''app''])
       [PackageJson, Tsconfig, TailwindConfig, PostCSSConfig, EslintConfig, IgnixConfig,
        SrcStructure, Gitignore, Readme])
     \<lparr>files = [[] \<mapsto> Dir, [''app''] \<mapsto> Dir], logs = []\<rparr>
   = (None, \<lparr>files = [[] \<mapsto> Dir, [''app''] \<mapsto> Dir]
               ++ map_of (allArtifacts (\<lambda>d. ''{}'') [''app'']), logs = []\<rparr>) \<and>
   ([[] \<mapsto> Dir, [''app''] \<mapsto> Dir] ++ map_of (allArtifacts (\<lambda>d. ''{}'') [''app'']))
      [''app'', ''package.json''] = Some (File ''{}'') \<and>
   ([[] \<mapsto> Dir, [''app''] \<mapsto> Dir] ++ map_of (allArtifacts (\<lambda>d. ''{}'') [''app'']))
      [''app'', ''src'', ''pages'', ''index.tsx''] = Some (File pageContent) \<and>
   ([[] \<mapsto> Dir, [''app''] \<mapsto> Dir] ++ map_of (allArtifacts (\<lambda>d. ''{}'') [''app'']))
      [''app'', ''dist''] = Some Dir \<and>
   ([[] \<mapsto> Dir, [''app''] \<mapsto> Dir] ++ map_of (allArtifacts (\<lambda>d. ''{}'') [''app'']))
      [''app'', ''node_modules''] = None"
proof -
  have h1: "\<forall>q. prefix q [''app''] \<longrightarrow>
      files \<lparr>files = [[] \<mapsto> Dir, [''app''] \<mapsto> Dir], logs = []\<rparr> q = Some Dir"
    using sample_root(1) by blast
  have h2: "\<forall>q. strict_prefix [''app''] q \<longrightarrow>
      files \<lparr>files = [[] \<mapsto> Dir, [''app''] \<mapsto> Dir], logs = []\<rparr> q = None"
    using sample_root(2) by blast
  show ?thesis
    using full_run_artifacts[OF h1 h2 all_emitters, of "\<lambda>s. None" "\<lambda>d. ''{}''",
        THEN conjunct1]
    by (simp add: allArtifacts_def)
qed

theorem full_run_artifacts_counterexample:
  "files \<lparr>files = [[] \<mapsto> Dir, [''app''] \<mapsto> Dir], logs = []\<rparr> [''app'', ''src''] = None \<and>
   files (snd (sequence (map (emit (\<lambda>s. None) (\<lambda>d. ''{}'') [''app''])
       [PackageJson, Tsconfig, TailwindConfig, PostCSSConfig, EslintConfig, IgnixConfig,
        SrcStructure, Gitignore, Readme])
     \<lparr>files = [[] \<mapsto> Dir, [''app''] \<mapsto> Dir], logs = []\<rparr>)) [''app'', ''src''] = Some Dir \<and>
   [''app'', ''src''] \<notin> set (map ((@) [''app''])
     [[''src'', ''components''], [''src'', ''pages''], [''src'', ''styles''], [''dist''],
      [''package.json''], [''tsconfig.json''], [''tailwind.config.js''],
      [''postcss.config.js''], [''.eslintrc.json''], [''ignix.config.js''],
      [''src'', ''components'', ''UiShell.tsx''], [''src'', ''pages'', ''index.tsx''],
      [''src'', ''styles'', ''index.css''], [''.gitignore''], [''README.md'']])"
proof -
  have "sequence (map (emit (\<lambda>s. None) (\<lambda>d. ''{}'') [''app''])
       [PackageJson, Tsconfig, TailwindConfig, PostCSSConfig, EslintConfig, IgnixConfig,
        SrcStructure, Gitignore, Readme])
     \<lparr>files = [[] \<mapsto> Dir, [''app''] \<mapsto> Dir], logs = []\<rparr>
   = (None, \<lparr>files = [[] \<mapsto> Dir, [''app''] \<mapsto> Dir], logs = []\<rparr>
        \<lparr>files := files \<lparr>files = [[] \<mapsto> Dir, [''app''] \<mapsto> Dir], logs = []\<rparr>
               ++ map_of (allArtifacts (\<lambda>d. ''{}'') [''app''])\<rparr>)"
    by (rule full_run[OF sample_root all_emitters])
  then show ?thesis by (simp add: allArtifacts_def)
qed

end
